theory Spec2Isabelle
  imports Complex_Main
begin

section \<open>Sigrid CI client: a model of \<^verbatim>\<open>sigridci.py\<close>\<close>

text \<open>
  The script packs a source tree into a zip archive (\<^verbatim>\<open>SystemUploadPacker\<close>), submits it
  and polls for the analysis results (\<^verbatim>\<open>SigridApiClient\<close>), and renders the feedback
  (\<^verbatim>\<open>Report\<close> and its subclasses). Each Python function is a HOL function of the same
  name. Exceptions are values of \<open>exn\<close> on the left of a sum; \<^verbatim>\<open>sys.exit(n)\<close> raises
  \<^verbatim>\<open>SystemExit(n)\<close>, as in Python. Output, sleeping and HTTP requests are events
  appended to a trace that every effectful function takes and returns.
\<close>

subsection \<open>Exceptions and the exit status of the process\<close>

datatype exn =
    SystemExit nat
  | HTTPError nat
  | URLError
  | JSONDecodeError
  | UnicodeDecodeError
  | KeyError string
  | TypeError
  | Exception string

text \<open>
  No function of the script catches \<^verbatim>\<open>SystemExit\<close>, and the main block catches
  nothing at all: an exception that leaves a function ends the process. The interpreter
  exits with the code of a \<^verbatim>\<open>SystemExit\<close> and with status 1 (after a traceback) for
  every other exception; a main block that runs to its end exits with status 0.
\<close>

fun exit_status_of :: "exn \<Rightarrow> nat" where
  "exit_status_of (SystemExit n) = n"
| "exit_status_of e = 1"

definition process_exit_status :: "exn + 'a \<Rightarrow> nat" where
  "process_exit_status r = (case r of Inl e \<Rightarrow> exit_status_of e | Inr v \<Rightarrow> 0)"

subsection \<open>Strings\<close>

text \<open>
  A Python \<^verbatim>\<open>str\<close> is a \<open>string\<close>; a \<open>char\<close> stands for a code point below 256.
  \<open>isspace\<close> lists the code points below 256 for which \<^verbatim>\<open>str.isspace\<close> holds, the
  characters that \<^verbatim>\<open>s.strip()\<close> removes from both ends.
\<close>

definition isspace :: "char \<Rightarrow> bool" where
  "isspace c = (c \<in> set [CHR 0x09, CHR 0x0A, CHR 0x0B, CHR 0x0C, CHR 0x0D,
                          CHR 0x1C, CHR 0x1D, CHR 0x1E, CHR 0x1F, CHR 0x20,
                          CHR 0x85, CHR 0xA0])"

definition strip_where :: "(char \<Rightarrow> bool) \<Rightarrow> string \<Rightarrow> string" where
  "strip_where P s = rev (dropWhile P (rev (dropWhile P s)))"

text \<open>\<^verbatim>\<open>s.strip()\<close> and \<^verbatim>\<open>s.strip(chars)\<close>.\<close>

definition strip :: "string \<Rightarrow> string" where
  "strip s = strip_where isspace s"

definition strip_chars :: "string \<Rightarrow> string \<Rightarrow> string" where
  "strip_chars chars s = strip_where (\<lambda>c. c \<in> set chars) s"

text \<open>\<^verbatim>\<open>s.startswith(p)\<close> and the substring test \<^verbatim>\<open>p in s\<close>.\<close>

fun startswith :: "string \<Rightarrow> string \<Rightarrow> bool" where
  "startswith s [] = True"
| "startswith [] (p # ps) = False"
| "startswith (c # s) (p # ps) = (c = p \<and> startswith s ps)"

fun str_in :: "string \<Rightarrow> string \<Rightarrow> bool" where
  "str_in p [] = (p = [])"
| "str_in p (c # s) = (startswith (c # s) p \<or> str_in p s)"

text \<open>\<^verbatim>\<open>s.endswith(p)\<close>, and whether a string holds two slashes in a row.\<close>

definition endswith :: "string \<Rightarrow> string \<Rightarrow> bool" where
  "endswith s p = startswith (rev s) (rev p)"

fun double_slash :: "string \<Rightarrow> bool" where
  "double_slash (a # b # s) = ((a = CHR ''/'' \<and> b = CHR ''/'') \<or> double_slash (b # s))"
| "double_slash s = False"

text \<open>\<^verbatim>\<open>s.replace("\\", "/")\<close>: every backslash becomes a slash.\<close>

definition replace_backslash :: "string \<Rightarrow> string" where
  "replace_backslash s = map (\<lambda>c. if c = CHR 0x5C then CHR ''/'' else c) s"

text \<open>\<^verbatim>\<open>"%d" % n\<close> and \<^verbatim>\<open>f"{n}"\<close> for a natural number: its decimal digits.\<close>

definition digit :: "nat \<Rightarrow> char" where
  "digit d = char_of (48 + d)"

function str_nat :: "nat \<Rightarrow> string" where
  "str_nat n = (if n < 10 then [digit n] else str_nat (n div 10) @ [digit (n mod 10)])"
  by pat_completeness auto
termination
  by (relation "measure (\<lambda>n. n)") auto

declare str_nat.simps [simp del]

text \<open>
  \<^verbatim>\<open>os.path.join(a, b)\<close> of \<^verbatim>\<open>posixpath\<close>: an absolute \<open>b\<close> replaces \<open>a\<close>; otherwise
  \<open>b\<close> is appended, after a slash unless \<open>a\<close> is empty or already ends with one.
\<close>

definition os_path_join :: "string \<Rightarrow> string \<Rightarrow> string" where
  "os_path_join a b =
     (if startswith b ''/'' then b
      else if a = [] \<or> last a = CHR ''/'' then a @ b
      else a @ ''/'' @ b)"

subsection \<open>The source tree and \<^verbatim>\<open>os.walk\<close>\<close>

text \<open>
  A directory holds the names of its files and its subdirectories by name.
  \<^verbatim>\<open>os.walk(top)\<close> yields the directory itself first and then walks into each
  subdirectory \<open>d\<close> under the path \<^verbatim>\<open>join(top, d)\<close>. Beside the \<open>root\<close> string and the
  file names that \<^verbatim>\<open>os.walk\<close> yields, the model keeps the names of the directories
  walked into below the top (\<open>below\<close>): \<^verbatim>\<open>os.path.relpath(join(root, file), sourceDir)\<close>
  is these names and the file name, joined by slashes.
\<close>

datatype dirtree = Dir "string list" "(string \<times> dirtree) list"

fun walk :: "string \<Rightarrow> string list \<Rightarrow> dirtree \<Rightarrow> (string \<times> string list \<times> string list) list"
  and walk_dirs :: "string \<Rightarrow> string list \<Rightarrow> (string \<times> dirtree) list
                      \<Rightarrow> (string \<times> string list \<times> string list) list" where
  "walk dirpath below (Dir files dirs) = (dirpath, below, files) # walk_dirs dirpath below dirs"
| "walk_dirs dirpath below [] = []"
| "walk_dirs dirpath below ((d, t) # rest) =
     walk (os_path_join dirpath d) (below @ [d]) t @ walk_dirs dirpath below rest"

definition os_walk :: "string \<Rightarrow> dirtree \<Rightarrow> (string \<times> string list \<times> string list) list" where
  "os_walk sourceDir tree = walk sourceDir [] tree"

fun join_slash :: "string list \<Rightarrow> string" where
  "join_slash [] = []"
| "join_slash [x] = x"
| "join_slash (x # y # ys) = x @ ''/'' @ join_slash (y # ys)"

definition relpath_below :: "string list \<Rightarrow> string \<Rightarrow> string" where
  "relpath_below below file = join_slash (below @ [file])"

text \<open>
  A name of a directory entry is not empty and holds no slash. \<open>wf_tree\<close> says so for
  every name of a tree; file systems hold no other trees.
\<close>

definition entry_name :: "string \<Rightarrow> bool" where
  "entry_name n = (n \<noteq> [] \<and> CHR ''/'' \<notin> set n)"

fun wf_tree :: "dirtree \<Rightarrow> bool"
  and wf_dirs :: "(string \<times> dirtree) list \<Rightarrow> bool" where
  "wf_tree (Dir files dirs) = (list_all entry_name files \<and> wf_dirs dirs)"
| "wf_dirs [] = True"
| "wf_dirs ((d, t) # rest) = (entry_name d \<and> wf_tree t \<and> wf_dirs rest)"

subsection \<open>\<^verbatim>\<open>SystemUploadPacker\<close>\<close>

record SystemUploadPacker =
  MAX_UPLOAD_SIZE_MB :: nat
  excludePatterns :: "string list"
  pathPrefix :: string

definition DEFAULT_EXCLUDES :: "string list" where
  "DEFAULT_EXCLUDES =
     [''coverage/'', ''build/'', ''dist/'', ''node_modules/'', ''sigridci/'',
      ''sigrid-ci-output/'', ''target/'', ''.idea/'', ''.jpg'', ''.png'']"

text \<open>
  \<^verbatim>\<open>__init__(excludePatterns, useRepoHistory, pathPrefix)\<close>. The size cap is the class
  attribute, 500, which a caller can set on the instance.
\<close>

definition SystemUploadPacker_init :: "string list \<Rightarrow> bool \<Rightarrow> string \<Rightarrow> SystemUploadPacker" where
  "SystemUploadPacker_init excludes useRepoHistory prefix =
     \<lparr> MAX_UPLOAD_SIZE_MB = 500,
       excludePatterns =
         DEFAULT_EXCLUDES @ filter (\<lambda>excl. excl \<noteq> []) excludes
           @ (if \<not> useRepoHistory then [''.git''] else []),
       pathPrefix = strip_chars ''/'' prefix \<rparr>"

definition getUploadFilePath :: "SystemUploadPacker \<Rightarrow> string \<Rightarrow> string" where
  "getUploadFilePath self relativePath =
     (if pathPrefix self = [] then relativePath
      else pathPrefix self @ ''/'' @ relativePath)"

text \<open>The loop of \<^verbatim>\<open>isExcluded\<close> over the patterns, returning at the first hit.\<close>

fun any_exclude :: "string list \<Rightarrow> string \<Rightarrow> bool" where
  "any_exclude [] normalizedPath = False"
| "any_exclude (exclude # rest) normalizedPath =
     (if str_in (strip exclude) normalizedPath then True else any_exclude rest normalizedPath)"

definition isExcluded :: "SystemUploadPacker \<Rightarrow> string \<Rightarrow> bool" where
  "isExcluded self filePath = any_exclude (excludePatterns self) (replace_backslash filePath)"

text \<open>
  The archive is the list of the calls \<^verbatim>\<open>zipFile.write(filePath, uploadPath)\<close>, in
  order: the file read and the name it is stored under.
\<close>

type_synonym zip_entry = "string \<times> string"

fun write_files :: "SystemUploadPacker \<Rightarrow> string \<Rightarrow> string \<Rightarrow> string list \<Rightarrow> string list
                      \<Rightarrow> zip_entry list" where
  "write_files self outputFile walkroot below [] = []"
| "write_files self outputFile walkroot below (file # files) =
     (let filePath = os_path_join walkroot file in
      (if file \<noteq> outputFile \<and> \<not> isExcluded self filePath
       then [(filePath, getUploadFilePath self (relpath_below below file))]
       else [])
      @ write_files self outputFile walkroot below files)"

fun write_walk :: "SystemUploadPacker \<Rightarrow> string \<Rightarrow> (string \<times> string list \<times> string list) list
                     \<Rightarrow> zip_entry list" where
  "write_walk self outputFile [] = []"
| "write_walk self outputFile ((walkroot, below, files) # rest) =
     write_files self outputFile walkroot below files @ write_walk self outputFile rest"

text \<open>
  \<^verbatim>\<open>round(x)\<close> of Python 3 rounds a float to the nearest integer, a tie to the even
  one. The size of a file is below \<open>2 ^ 53\<close> bytes, so the float \<^verbatim>\<open>size / 1024 / 1024\<close>
  is the exact quotient (dividing by a power of two only changes the exponent) and the
  rounding is that of the rational number \<open>n / d\<close>.
\<close>

definition round_div :: "nat \<Rightarrow> nat \<Rightarrow> nat" where
  "round_div n d =
     (let q = n div d; r = n mod d in
      if 2 * r < d then q
      else if d < 2 * r then q + 1
      else if even q then q else q + 1)"

definition uploadSizeMB :: "nat \<Rightarrow> nat" where
  "uploadSizeMB size_in_bytes = max (round_div size_in_bytes (1024 * 1024)) 1"

subsection \<open>Effects\<close>

text \<open>
  A request is what \<^verbatim>\<open>urllib.request.Request\<close> is given: the URL, the method, the
  headers in the order and spelling of the \<^verbatim>\<open>add_header\<close> calls, and the body (the
  archive, for the upload). A response is the status and the bytes of the body, as
  \<^verbatim>\<open>response.read()\<close> returns them.
\<close>

type_synonym zip_file = "zip_entry list"

record request =
  url :: string
  http_method :: string
  headers :: "(string \<times> string) list"
  payload :: "zip_file option"

record response =
  status :: nat
  body :: "nat list"

text \<open>
  The world is the trace of what the process has done so far. \<^verbatim>\<open>log(message)\<close>
  prints the message after a timestamp; the trace keeps the message.
\<close>

datatype event = Log string | Print string | Sleep nat | Urlopen request

type_synonym world = "event list"

fun is_Urlopen :: "event \<Rightarrow> bool" where
  "is_Urlopen (Urlopen rq) = True"
| "is_Urlopen e = False"

fun is_Sleep :: "event \<Rightarrow> bool" where
  "is_Sleep (Sleep n) = True"
| "is_Sleep e = False"

definition requests_sent :: "world \<Rightarrow> nat" where
  "requests_sent w = length (filter is_Urlopen w)"

definition log_msg :: "string \<Rightarrow> world \<Rightarrow> world" where
  "log_msg message w = w @ [Log message]"

definition print_line :: "string \<Rightarrow> world \<Rightarrow> world" where
  "print_line message w = w @ [Print message]"

definition sleep :: "nat \<Rightarrow> world \<Rightarrow> world" where
  "sleep seconds w = w @ [Sleep seconds]"

text \<open>
  \<^verbatim>\<open>bytes.decode("utf8")\<close>, strict as in Python: the code points of the text, or \<open>None\<close>
  where it raises \<^verbatim>\<open>UnicodeDecodeError\<close> (a byte that starts no sequence, a sequence
  cut short or continued by the wrong byte, an overlong form, a surrogate, a code
  point above \<open>0x10FFFF\<close>). A decoded text is the list of its code points.
\<close>

definition continuation :: "nat \<Rightarrow> bool" where
  "continuation c = (128 \<le> c \<and> c < 192)"

fun utf8_decode :: "nat list \<Rightarrow> nat list option" where
  "utf8_decode [] = Some []"
| "utf8_decode (b # bs) =
     (if b < 128 then map_option ((#) b) (utf8_decode bs)
      else if 194 \<le> b \<and> b < 224 then
        (case bs of
           c1 # r \<Rightarrow>
             if continuation c1
             then map_option ((#) ((b - 192) * 64 + (c1 - 128))) (utf8_decode r)
             else None
         | _ \<Rightarrow> None)
      else if 224 \<le> b \<and> b < 240 then
        (case bs of
           c1 # c2 # r \<Rightarrow>
             (let cp = (b - 224) * 4096 + (c1 - 128) * 64 + (c2 - 128) in
              if continuation c1 \<and> continuation c2 \<and> 2048 \<le> cp
                 \<and> (cp < 55296 \<or> 57344 \<le> cp)
              then map_option ((#) cp) (utf8_decode r)
              else None)
         | _ \<Rightarrow> None)
      else if 240 \<le> b \<and> b < 245 then
        (case bs of
           c1 # c2 # c3 # r \<Rightarrow>
             (let cp = (b - 240) * 262144 + (c1 - 128) * 4096 + (c2 - 128) * 64 + (c3 - 128) in
              if continuation c1 \<and> continuation c2 \<and> continuation c3
                 \<and> 65536 \<le> cp \<and> cp < 1114112
              then map_option ((#) cp) (utf8_decode r)
              else None)
         | _ \<Rightarrow> None)
      else None)"

text \<open>
  Parsed JSON, as \<^verbatim>\<open>json.loads\<close> returns it. The keys of an object are distinct, so
  the empty dictionary \<^verbatim>\<open>{}\<close> is \<open>JObject []\<close> and nothing else.
\<close>

datatype json =
    JNull
  | JBool bool
  | JNumber real
  | JString string
  | JArray "json list"
  | JObject "(string \<times> json) list"

text \<open>\<^verbatim>\<open>d[key]\<close>: a missing key raises \<^verbatim>\<open>KeyError\<close>; only a dictionary has string keys.\<close>

fun subscript :: "json \<Rightarrow> string \<Rightarrow> exn + json" where
  "subscript (JObject kvs) k = (case map_of kvs k of None \<Rightarrow> Inl (KeyError k) | Some v \<Rightarrow> Inr v)"
| "subscript v k = Inl TypeError"

text \<open>
  What the process cannot decide: the outcome of the \<open>n\<close>-th call of \<^verbatim>\<open>urlopen\<close>
  (which raises \<^verbatim>\<open>HTTPError\<close> for a status outside 2xx), the parser \<^verbatim>\<open>json.loads\<close>
  on a decoded text (\<open>None\<close> where it raises \<^verbatim>\<open>JSONDecodeError\<close>), \<^verbatim>\<open>str(v)\<close> of a
  parsed value, and
  the clock as \<^verbatim>\<open>strftime("%Y%m%d-%H%M%S")\<close> prints it.
\<close>

record env =
  net :: "nat \<Rightarrow> exn + response"
  json_loads :: "nat list \<Rightarrow> json option"
  str_json :: "json \<Rightarrow> string"
  timestamp :: string

definition urlopen :: "env \<Rightarrow> request \<Rightarrow> world \<Rightarrow> (exn + response) \<times> world" where
  "urlopen env rq w = (net env (requests_sent w), w @ [Urlopen rq])"

subsection \<open>\<^verbatim>\<open>SystemUploadPacker.prepareUpload\<close>\<close>

text \<open>
  \<^verbatim>\<open>prepareUpload(sourceDir, outputFile)\<close>: \<open>tree\<close> is the directory at \<open>sourceDir\<close> and
  \<open>getsize\<close> gives the size in bytes of the closed archive, which depends on the
  contents and their compression. The archive is written in full before its size is
  checked, so it is returned beside the result.
\<close>

definition prepareUpload ::
  "SystemUploadPacker \<Rightarrow> dirtree \<Rightarrow> (zip_file \<Rightarrow> nat) \<Rightarrow> string \<Rightarrow> string \<Rightarrow> world
     \<Rightarrow> zip_file \<times> (exn + unit) \<times> world" where
  "prepareUpload self tree getsize sourceDir outputFile w =
     (let zipFile = write_walk self outputFile (os_walk sourceDir tree);
          sizeMB = uploadSizeMB (getsize zipFile);
          w1 = log_msg (''Upload size is '' @ str_nat sizeMB @ '' MB'') w
      in if MAX_UPLOAD_SIZE_MB self < sizeMB
         then (zipFile,
               Inl (Exception (''Upload exceeds maximum size of ''
                                 @ str_nat (MAX_UPLOAD_SIZE_MB self) @ '' MB'')),
               w1)
         else (zipFile, Inr (), w1))"

subsection \<open>Base64\<close>

text \<open>
  \<^verbatim>\<open>s.encode("utf8")\<close> for code points below 256, \<^verbatim>\<open>base64.b64encode\<close> (the standard
  alphabet of RFC 4648, section 4) and \<^verbatim>\<open>base64.urlsafe_b64encode\<close>, which the library
  defines as the standard encoding with \<open>+\<close> and \<open>/\<close> translated to \<open>-\<close> and \<open>_\<close>.
\<close>

fun utf8 :: "string \<Rightarrow> nat list" where
  "utf8 [] = []"
| "utf8 (c # cs) =
     (if of_char c < (128::nat) then [of_char c]
      else [192 + of_char c div 64, 128 + of_char c mod 64]) @ utf8 cs"

definition b64_alphabet :: string where
  "b64_alphabet = ''ABCDEFGHIJKLMNOPQRSTUVWXYZabcdefghijklmnopqrstuvwxyz0123456789+/''"

definition b64_char :: "nat \<Rightarrow> char" where
  "b64_char i = b64_alphabet ! (i mod 64)"

fun b64_groups :: "nat list \<Rightarrow> string" where
  "b64_groups [] = []"
| "b64_groups [a] = [b64_char (a div 4), b64_char ((a mod 4) * 16), CHR ''='', CHR ''='']"
| "b64_groups [a, b] =
     [b64_char (a div 4), b64_char ((a mod 4) * 16 + b div 16),
      b64_char ((b mod 16) * 4), CHR ''='']"
| "b64_groups (a # b # c # rest) =
     [b64_char (a div 4), b64_char ((a mod 4) * 16 + b div 16),
      b64_char ((b mod 16) * 4 + c div 64), b64_char (c mod 64)] @ b64_groups rest"

definition b64encode :: "nat list \<Rightarrow> string" where
  "b64encode bytes = b64_groups bytes"

definition urlsafe_b64encode :: "nat list \<Rightarrow> string" where
  "urlsafe_b64encode bytes =
     map (\<lambda>c. if c = CHR ''+'' then CHR ''-'' else if c = CHR ''/'' then CHR ''_'' else c)
       (b64encode bytes)"

subsection \<open>\<^verbatim>\<open>SigridApiClient\<close>\<close>

record SigridApiClient =
  baseURL :: string
  account :: string
  token :: string
  urlPartnerName :: string
  urlCustomerName :: string
  urlSystemName :: string

definition PROTOCOL_VERSION :: string where
  "PROTOCOL_VERSION = ''v1''"

definition POLL_INTERVAL :: nat where
  "POLL_INTERVAL = 60"

definition POLL_ATTEMPTS :: nat where
  "POLL_ATTEMPTS = 30"

definition RETRY_ATTEMPTS :: nat where
  "RETRY_ATTEMPTS = 5"

definition api_request :: "SigridApiClient \<Rightarrow> string \<Rightarrow> string \<Rightarrow> request" where
  "api_request self api path =
     \<lparr> url = baseURL self @ ''/rest/'' @ api @ path,
       http_method = ''GET'',
       headers =
         [(''Accept'', ''application/json''),
          (''Authorization'',
             ''Basic '' @ urlsafe_b64encode (utf8 (account self @ '':'' @ token self)))],
       payload = None \<rparr>"

definition callSigridAPI ::
  "env \<Rightarrow> SigridApiClient \<Rightarrow> string \<Rightarrow> string \<Rightarrow> world \<Rightarrow> (exn + json) \<times> world" where
  "callSigridAPI env self api path w =
     (case urlopen env (api_request self api path) w of
        (Inl e, w1) \<Rightarrow> (Inl e, w1)
      | (Inr rsp, w1) \<Rightarrow>
          if status rsp = 204 then (Inr (JObject []), w1)
          else (case utf8_decode (body rsp) of
                  None \<Rightarrow> (Inl UnicodeDecodeError, w1)
                | Some responseBody \<Rightarrow>
                    if length responseBody = 0
                    then (Inr (JObject []), log_msg ''Received empty response'' w1)
                    else (case json_loads env responseBody of
                            None \<Rightarrow> (Inl JSONDecodeError, w1)
                          | Some v \<Rightarrow> (Inr v, w1))))"

definition processHttpError :: "nat \<Rightarrow> world \<Rightarrow> (exn + unit) \<times> world" where
  "processHttpError code w =
     (if code = 401 \<or> code = 403
      then (Inl (SystemExit 1),
            log_msg ''You are not authorized to access Sigrid for this system'' w)
      else if code = 404
      then (Inr (), log_msg ''Analysis results not yet available'' w)
      else if 500 \<le> code
      then (Inl (SystemExit 1),
            log_msg (''Sigrid is currently not available (HTTP status '' @ str_nat code @ '')'') w)
      else (Inl (Exception (''Received HTTP status '' @ str_nat code)), w))"

definition upload_location_path :: "SigridApiClient \<Rightarrow> string" where
  "upload_location_path self =
     ''/'' @ urlPartnerName self @ ''/'' @ urlCustomerName self @ ''/'' @ urlSystemName self
       @ ''/ci/uploads/'' @ PROTOCOL_VERSION"

text \<open>
  \<^verbatim>\<open>obtainUploadLocation\<close>: the body of \<^verbatim>\<open>for attempt in range(RETRY_ATTEMPTS)\<close>, by
  the number of attempts left; after the last one the code below the loop runs.
\<close>

fun obtainUploadLocation_loop ::
  "env \<Rightarrow> SigridApiClient \<Rightarrow> nat \<Rightarrow> world \<Rightarrow> (exn + json) \<times> world" where
  "obtainUploadLocation_loop env self 0 w =
     (Inl (SystemExit 1), log_msg ''Sigrid is currently unavailable'' w)"
| "obtainUploadLocation_loop env self (Suc n) w =
     (case callSigridAPI env self ''inboundresults'' (upload_location_path self) w of
        (Inr v, w1) \<Rightarrow> (Inr v, w1)
      | (Inl (HTTPError code), w1) \<Rightarrow>
          if code = 502
          then obtainUploadLocation_loop env self n (sleep POLL_INTERVAL (log_msg ''Retrying'' w1))
          else (case processHttpError code w1 of
                  (Inl e, w2) \<Rightarrow> (Inl e, w2)
                | (Inr u, w2) \<Rightarrow> obtainUploadLocation_loop env self n w2)
      | (Inl e, w1) \<Rightarrow> (Inl e, w1))"

definition obtainUploadLocation :: "env \<Rightarrow> SigridApiClient \<Rightarrow> world \<Rightarrow> (exn + json) \<times> world" where
  "obtainUploadLocation env self w = obtainUploadLocation_loop env self RETRY_ATTEMPTS w"

text \<open>
  \<^verbatim>\<open>uploadBinaryFile(url, upload)\<close>: the file \<open>upload\<close> is the archive, of the given
  size. Nothing here catches what \<^verbatim>\<open>urlopen\<close> raises.
\<close>

definition uploadBinaryFile ::
  "env \<Rightarrow> string \<Rightarrow> zip_file \<Rightarrow> nat \<Rightarrow> world \<Rightarrow> (exn + bool) \<times> world" where
  "uploadBinaryFile env uploadUrl upload upload_size w =
     (let uploadRequest =
            \<lparr> url = uploadUrl,
              http_method = ''PUT'',
              headers =
                [(''Content-Type'', ''application/zip''),
                 (''Content-Length'', str_nat upload_size),
                 (''x-amz-server-side-encryption'', ''AES256'')],
              payload = Some upload \<rparr>
      in case urlopen env uploadRequest w of
           (Inl e, w1) \<Rightarrow> (Inl e, w1)
         | (Inr uploadResponse, w1) \<Rightarrow>
             (Inr (status uploadResponse = 200 \<or> status uploadResponse = 201
                     \<or> status uploadResponse = 202), w1))"

text \<open>
  \<^verbatim>\<open>submitUpload(sourceDir, excludePatterns, useRepoHistory, pathPrefix)\<close>. The URL
  given to \<^verbatim>\<open>Request\<close> is read through \<^verbatim>\<open>str\<close>, as the f-string of the log line is.
\<close>

definition submitUpload ::
  "env \<Rightarrow> SigridApiClient \<Rightarrow> dirtree \<Rightarrow> (zip_file \<Rightarrow> nat) \<Rightarrow> string \<Rightarrow> string list \<Rightarrow> bool
     \<Rightarrow> string \<Rightarrow> world \<Rightarrow> (exn + json) \<times> world" where
  "submitUpload env self tree getsize sourceDir excludes useRepoHistory prefix w =
     (let uploadPacker = SystemUploadPacker_init excludes useRepoHistory prefix;
          upload = ''sigrid-upload-'' @ timestamp env @ ''.zip''
      in case prepareUpload uploadPacker tree getsize sourceDir upload
                (log_msg ''Creating upload'' w) of
           (zipFile, Inl e, w1) \<Rightarrow> (Inl e, w1)
         | (zipFile, Inr u, w1) \<Rightarrow>
             (case obtainUploadLocation env self (log_msg ''Preparing upload'' w1) of
                (Inl e, w2) \<Rightarrow> (Inl e, w2)
              | (Inr uploadLocation, w2) \<Rightarrow>
                  (case subscript uploadLocation ''uploadUrl'' of
                     Inl e \<Rightarrow> (Inl e, w2)
                   | Inr uploadUrl \<Rightarrow>
                       (case subscript uploadLocation ''ciRunId'' of
                          Inl e \<Rightarrow> (Inl e, w2)
                        | Inr analysisId \<Rightarrow>
                            (case uploadBinaryFile env (str_json env uploadUrl) zipFile
                                    (getsize zipFile)
                                    (log_msg ''Submitting upload''
                                       (log_msg (''Sigrid CI analysis ID: ''
                                                   @ str_json env analysisId) w2)) of
                               (Inl e, w3) \<Rightarrow> (Inl e, w3)
                             | (Inr uploaded, w3) \<Rightarrow>
                                 if \<not> uploaded
                                 then (Inl (Exception ''Uploading file failed''), w3)
                                 else (Inr analysisId, w3))))))"

definition results_path :: "env \<Rightarrow> SigridApiClient \<Rightarrow> json \<Rightarrow> string" where
  "results_path env self analysisId =
     ''/sigridci/'' @ urlCustomerName self @ ''/'' @ urlSystemName self @ ''/''
       @ PROTOCOL_VERSION @ ''/ci/results/'' @ str_json env analysisId"

text \<open>
  \<^verbatim>\<open>fetchAnalysisResults\<close>: the body of \<^verbatim>\<open>for attempt in range(POLL_ATTEMPTS)\<close>, by the
  number of attempts left. An attempt that neither returns nor raises falls through
  to the log line and the sleep at the end of the loop body.
\<close>

definition wait_for_results :: "world \<Rightarrow> world" where
  "wait_for_results w = sleep POLL_INTERVAL (log_msg ''Waiting for analysis results'' w)"

fun fetchAnalysisResults_loop ::
  "env \<Rightarrow> SigridApiClient \<Rightarrow> json \<Rightarrow> nat \<Rightarrow> world \<Rightarrow> (exn + json) \<times> world" where
  "fetchAnalysisResults_loop env self analysisId 0 w =
     (Inl (SystemExit 1),
      log_msg ''Analysis failed: waiting for analysis results took too long'' w)"
| "fetchAnalysisResults_loop env self analysisId (Suc n) w =
     (case callSigridAPI env self ''analysis-results'' (results_path env self analysisId) w of
        (Inr rsp, w1) \<Rightarrow>
          if rsp \<noteq> JObject [] then (Inr rsp, w1)
          else fetchAnalysisResults_loop env self analysisId n (wait_for_results w1)
      | (Inl (HTTPError code), w1) \<Rightarrow>
          (case processHttpError code w1 of
             (Inl e, w2) \<Rightarrow> (Inl e, w2)
           | (Inr u, w2) \<Rightarrow>
               fetchAnalysisResults_loop env self analysisId n (wait_for_results w2))
      | (Inl JSONDecodeError, w1) \<Rightarrow>
          fetchAnalysisResults_loop env self analysisId n
            (wait_for_results (log_msg ''Received incomplete analysis results'' w1))
      | (Inl e, w1) \<Rightarrow> (Inl e, w1))"

definition fetchAnalysisResults ::
  "env \<Rightarrow> SigridApiClient \<Rightarrow> json \<Rightarrow> world \<Rightarrow> (exn + json) \<times> world" where
  "fetchAnalysisResults env self analysisId w =
     fetchAnalysisResults_loop env self analysisId POLL_ATTEMPTS w"

subsection \<open>Reports\<close>

text \<open>
  The feedback a report reads, typed as the data model gives it: a rating is a number
  or absent (a missing key and \<^verbatim>\<open>null\<close> both read as \<^verbatim>\<open>None\<close> through \<^verbatim>\<open>.get\<close>), a
  finite float is the real number it denotes, and \<^verbatim>\<open>>=\<close> on finite floats is the order
  of these reals. A key of the feedback itself may be missing (\<open>None\<close>): subscripting
  it raises \<^verbatim>\<open>KeyError\<close>, \<^verbatim>\<open>.get\<close> takes the default.
\<close>

type_synonym ratings = "string \<Rightarrow> real option"

record candidate =
  subject :: string
  category :: string
  metric :: string

record feedback =
  newCodeRatings :: "ratings option"
  refactoringCandidates :: "candidate list option"
  refactoringCandidatesPerType :: "(string \<Rightarrow> string list option) option"

record args =
  customer :: string
  system :: string
  targetquality :: real

definition isPassed :: "feedback \<Rightarrow> string \<Rightarrow> real \<Rightarrow> exn + bool" where
  "isPassed fb m targetRating =
     (case newCodeRatings fb of
        None \<Rightarrow> Inl (KeyError ''newCodeRatings'')
      | Some rs \<Rightarrow>
          (case rs m of
             None \<Rightarrow> Inr True
           | Some v \<Rightarrow> Inr (targetRating \<le> v)))"

definition getRefactoringCandidates :: "feedback \<Rightarrow> string \<Rightarrow> exn + candidate list" where
  "getRefactoringCandidates fb m =
     (let cands = (case refactoringCandidates fb of None \<Rightarrow> [] | Some rcs \<Rightarrow> rcs);
          relevantRefactoringCandidates = filter (\<lambda>rc. metric rc = m) cands
      in case refactoringCandidatesPerType fb of
           None \<Rightarrow> Inl (KeyError ''refactoringCandidatesPerType'')
         | Some perType \<Rightarrow>
             Inr (relevantRefactoringCandidates
                  @ map (\<lambda>rc. \<lparr> subject = rc, category = ''introduced'', metric = m \<rparr>)
                      (case perType m of None \<Rightarrow> [] | Some subjects \<Rightarrow> subjects)))"

definition ANSI_BOLD :: string where
  "ANSI_BOLD = CHR 0x1B # ''[1m''"

definition ANSI_GREEN :: string where
  "ANSI_GREEN = CHR 0x1B # ''[92m''"

definition ANSI_YELLOW :: string where
  "ANSI_YELLOW = CHR 0x1B # ''[33m''"

definition printColor :: "string \<Rightarrow> string \<Rightarrow> world \<Rightarrow> world" where
  "printColor message ansiPrefix w = print_line (ansiPrefix @ message @ CHR 0x1B # ''[0m'') w"

definition ExitCodeReport_generate :: "feedback \<Rightarrow> args \<Rightarrow> world \<Rightarrow> (exn + unit) \<times> world" where
  "ExitCodeReport_generate fb a w =
     (case isPassed fb ''MAINTAINABILITY'' (targetquality a) of
        Inl e \<Rightarrow> (Inl e, w)
      | Inr passed \<Rightarrow>
          if passed
          then (Inr (),
                printColor
                  (CHR 0x0A # ''** SIGRID CI RUN COMPLETE: YOU WROTE MAINTAINABLE CODE AND REACHED THE TARGET **'' @ [CHR 0x0A])
                  (ANSI_BOLD @ ANSI_GREEN) w)
          else (Inl (SystemExit 1),
                printColor
                  (CHR 0x0A # ''** SIGRID CI RUN COMPLETE: THE CODE YOU WROTE DID NOT MEET THE TARGET FOR MAINTAINABLE CODE **'' @ [CHR 0x0A])
                  (ANSI_BOLD @ ANSI_YELLOW) w))"

subsection \<open>Reading a trace\<close>

text \<open>
  The requests and sleeps of a trace, in order (\<open>io_events\<close>), and the sleeps that
  follow its last request (\<open>slept_since_last_request\<close>).
\<close>

fun is_io :: "event \<Rightarrow> bool" where
  "is_io (Urlopen rq) = True"
| "is_io (Sleep n) = True"
| "is_io e = False"

definition io_events :: "world \<Rightarrow> event list" where
  "io_events w = filter is_io w"

definition slept_since_last_request :: "world \<Rightarrow> event list" where
  "slept_since_last_request w = filter is_Sleep (takeWhile (\<lambda>e. \<not> is_Urlopen e) (rev w))"

subsection \<open>What a poll attempt sees\<close>

text \<open>
  The outcomes of \<^verbatim>\<open>urlopen\<close> that the poll loop takes as "not ready": HTTP 404,
  status 204, an empty body, a body whose text parses to the empty object, and a body
  whose text does not parse. The payload of an outcome is the parsed text of any other
  response, if it has one. A body that is not UTF-8 is neither.
\<close>

definition not_ready :: "env \<Rightarrow> exn + response \<Rightarrow> bool" where
  "not_ready env r =
     (case r of
        Inl e \<Rightarrow> e = HTTPError 404
      | Inr rsp \<Rightarrow>
          status rsp = 204
          \<or> (case utf8_decode (body rsp) of
                None \<Rightarrow> False
              | Some t \<Rightarrow>
                  t = [] \<or> json_loads env t = Some (JObject []) \<or> json_loads env t = None))"

definition result_payload :: "env \<Rightarrow> exn + response \<Rightarrow> json option" where
  "result_payload env r =
     (case r of
        Inl e \<Rightarrow> None
      | Inr rsp \<Rightarrow>
          if status rsp = 204 then None
          else (case utf8_decode (body rsp) of
                  None \<Rightarrow> None
                | Some t \<Rightarrow>
                    if t = [] then None
                    else (case json_loads env t of
                            None \<Rightarrow> None
                          | Some v \<Rightarrow> if v = JObject [] then None else Some v)))"

definition poll_request :: "env \<Rightarrow> SigridApiClient \<Rightarrow> json \<Rightarrow> request" where
  "poll_request env self analysisId =
     api_request self ''analysis-results'' (results_path env self analysisId)"

subsection \<open>Example inputs\<close>

text \<open>
  A client, a parser that knows three texts, and schedules of replies, for the
  concrete runs below. \<open>ascii s\<close> is the bytes of an ASCII string, which are its code
  points as well.
\<close>

definition ascii :: "string \<Rightarrow> nat list" where
  "ascii s = map of_char s"

definition example_client :: SigridApiClient where
  "example_client =
     \<lparr> baseURL = ''https://sigrid-says.com'', account = ''dummy'', token = ''dummy'',
       urlPartnerName = ''sig'', urlCustomerName = ''aap'', urlSystemName = ''noot'' \<rparr>"

definition example_loads :: "nat list \<Rightarrow> json option" where
  "example_loads t =
     (if t = ascii ''{}'' then Some (JObject [])
      else if t = ascii ''LOCATION''
      then Some (JObject [(''uploadUrl'', JString ''https://upload''), (''ciRunId'', JString ''run1'')])
      else if t = ascii ''RESULTS'' then Some (JObject [(''baseline'', JString ''20200101'')])
      else None)"

definition example_env :: "(nat \<Rightarrow> exn + response) \<Rightarrow> env" where
  "example_env replies =
     \<lparr> net = replies, json_loads = example_loads,
       str_json = (\<lambda>v. case v of JString s \<Rightarrow> s | _ \<Rightarrow> ''?''),
       timestamp = ''20200101-120000'' \<rparr>"

definition replies_404_first :: "nat \<Rightarrow> exn + response" where
  "replies_404_first n =
     (if n = 0 then Inl (HTTPError 404) else Inr \<lparr> status = 200, body = ascii ''LOCATION'' \<rparr>)"

definition replies_poll :: "nat \<Rightarrow> exn + response" where
  "replies_poll n =
     (if n = 0 then Inl (HTTPError 404)
      else if n = 1 then Inr \<lparr> status = 204, body = [] \<rparr>
      else if n = 2 then Inr \<lparr> status = 200, body = ascii ''{'' \<rparr>
      else if n = 3 then Inr \<lparr> status = 200, body = ascii ''{}'' \<rparr>
      else if n = 4 then Inr \<lparr> status = 200, body = [] \<rparr>
      else Inr \<lparr> status = 200, body = ascii ''RESULTS'' \<rparr>)"

definition replies_502_then_401 :: "nat \<Rightarrow> exn + response" where
  "replies_502_then_401 n = (if n = 0 then Inl (HTTPError 502) else Inl (HTTPError 401))"

text \<open>
  A body cut inside a character: the bytes \<^verbatim>\<open>{"a":"\<close> and the first byte, \<open>0xC3\<close>, of
  a two-byte sequence.
\<close>

definition body_cut_in_character :: "nat list" where
  "body_cut_in_character = [123, 34, 97, 34, 58, 34, 195]"

section \<open>Properties\<close>

subsection \<open>The exit-code report\<close>

text \<open>
  Claim C1. For every feedback (which carries its \<open>newCodeRatings\<close> mapping) and every
  target threshold, \<^verbatim>\<open>ExitCodeReport.generate\<close> raises \<^verbatim>\<open>SystemExit(1)\<close>, so that the
  process ends with status 1, exactly when the \<open>MAINTAINABILITY\<close> entry of the new-code
  ratings is present and strictly below the threshold. When the entry is absent, or at
  or above the threshold, it returns normally and the process, whose last step this is,
  ends with status 0.
\<close>

theorem exit_code_report_gate:
  assumes "newCodeRatings fb = Some rs"
  shows "fst (ExitCodeReport_generate fb a w) =
           (if (case rs ''MAINTAINABILITY'' of None \<Rightarrow> False | Some v \<Rightarrow> v < targetquality a)
            then Inl (SystemExit 1) else Inr ())
       \<and> process_exit_status (fst (ExitCodeReport_generate fb a w)) =
           (if (case rs ''MAINTAINABILITY'' of None \<Rightarrow> False | Some v \<Rightarrow> v < targetquality a)
            then 1 else 0)"
proof (cases "rs ''MAINTAINABILITY''")
  case None
  then show ?thesis
    using assms by (simp add: ExitCodeReport_generate_def isPassed_def process_exit_status_def)
next
  case (Some v)
  then show ?thesis
    using assms
    by (simp add: ExitCodeReport_generate_def isPassed_def process_exit_status_def not_less)
qed

text \<open>
  The scenario of the specification: a rating of 3.6 against the threshold 3.5 passes
  (status 0), a rating of 3.4 against 3.5 fails (status 1).
\<close>

theorem exit_code_report_gate_witness:
  "process_exit_status (fst (ExitCodeReport_generate
      \<lparr> newCodeRatings = Some (Map.empty(''MAINTAINABILITY'' \<mapsto> 3.6)),
        refactoringCandidates = None, refactoringCandidatesPerType = None \<rparr>
      \<lparr> customer = ''c'', system = ''s'', targetquality = 3.5 \<rparr> [])) = 0
   \<and> process_exit_status (fst (ExitCodeReport_generate
      \<lparr> newCodeRatings = Some (Map.empty(''MAINTAINABILITY'' \<mapsto> 3.4)),
        refactoringCandidates = None, refactoringCandidatesPerType = None \<rparr>
      \<lparr> customer = ''c'', system = ''s'', targetquality = 3.5 \<rparr> [])) = 1"
  using
    exit_code_report_gate
      [of "\<lparr> newCodeRatings = Some (Map.empty(''MAINTAINABILITY'' \<mapsto> 3.6)),
             refactoringCandidates = None, refactoringCandidatesPerType = None \<rparr>"
          "Map.empty(''MAINTAINABILITY'' \<mapsto> 3.6)"
          "\<lparr> customer = ''c'', system = ''s'', targetquality = 3.5 \<rparr>" "[]"]
    exit_code_report_gate
      [of "\<lparr> newCodeRatings = Some (Map.empty(''MAINTAINABILITY'' \<mapsto> 3.4)),
             refactoringCandidates = None, refactoringCandidatesPerType = None \<rparr>"
          "Map.empty(''MAINTAINABILITY'' \<mapsto> 3.4)"
          "\<lparr> customer = ''c'', system = ''s'', targetquality = 3.5 \<rparr>" "[]"]
  by (simp add: process_exit_status_def)

subsection \<open>Refactoring candidates\<close>

text \<open>
  With the legacy map present, the result is the current-form candidates of the metric,
  in their order, followed by the legacy subjects of the metric, each converted.
\<close>

lemma getRefactoringCandidates_merge:
  "refactoringCandidatesPerType fb = Some perType \<Longrightarrow>
   getRefactoringCandidates fb m =
     Inr (filter (\<lambda>rc. metric rc = m)
            (case refactoringCandidates fb of None \<Rightarrow> [] | Some rcs \<Rightarrow> rcs)
          @ map (\<lambda>s. \<lparr> subject = s, category = ''introduced'', metric = m \<rparr>)
              (case perType m of None \<Rightarrow> [] | Some subjects \<Rightarrow> subjects))"
  by (simp add: getRefactoringCandidates_def)

text \<open>
  The scenario of the tests: one candidate in each form for \<open>UNIT_SIZE\<close> gives two
  candidates, the current form first, and another metric gives none.
\<close>

lemma both_forms_scenario:
  "getRefactoringCandidates
     \<lparr> newCodeRatings = Some Map.empty,
       refactoringCandidates =
         Some [\<lparr> subject = ''a/b.java::Duif.vuur()'', category = ''introduced'',
                 metric = ''UNIT_SIZE'' \<rparr>],
       refactoringCandidatesPerType = Some (Map.empty(''UNIT_SIZE'' \<mapsto> [''aap''])) \<rparr>
     ''UNIT_SIZE''
   = Inr [\<lparr> subject = ''a/b.java::Duif.vuur()'', category = ''introduced'', metric = ''UNIT_SIZE'' \<rparr>,
          \<lparr> subject = ''aap'', category = ''introduced'', metric = ''UNIT_SIZE'' \<rparr>]"
  "getRefactoringCandidates
     \<lparr> newCodeRatings = Some Map.empty,
       refactoringCandidates =
         Some [\<lparr> subject = ''a/b.java::Duif.vuur()'', category = ''introduced'',
                 metric = ''UNIT_SIZE'' \<rparr>],
       refactoringCandidatesPerType = Some (Map.empty(''UNIT_SIZE'' \<mapsto> [''aap''])) \<rparr>
     ''UNIT_COMPLEXITY''
   = Inr []"
  by (simp_all add: getRefactoringCandidates_def)

text \<open>
  Claim C7 says that a feedback whose candidates come in either form, or in both, gets
  the merged list. The code reads the current form through \<^verbatim>\<open>.get\<close> with a default
  but subscripts the legacy key: a feedback in the current form alone raises
  \<^verbatim>\<open>KeyError\<close> where the claim promises its one candidate.
\<close>

theorem legacy_key_missing_raises:
  "getRefactoringCandidates
     \<lparr> newCodeRatings = Some Map.empty,
       refactoringCandidates =
         Some [\<lparr> subject = ''a/b.java::Duif.vuur()'', category = ''introduced'',
                 metric = ''UNIT_SIZE'' \<rparr>],
       refactoringCandidatesPerType = None \<rparr>
     ''UNIT_SIZE''
   = Inl (KeyError ''refactoringCandidatesPerType'')"
  by (simp add: getRefactoringCandidates_def)

subsection \<open>The request headers\<close>

lemma b64encode_example: "b64encode [97, 58, 126] = ''YTp+''"
  by code_simp

lemma urlsafe_b64encode_example: "urlsafe_b64encode [97, 58, 126] = ''YTp-''"
  by code_simp

text \<open>
  Claim C8 says that the \<open>Authorization\<close> header is \<open>Basic\<close> and the standard Base64
  encoding of \<open>account:token\<close>. The code encodes with the URL-safe alphabet: for the
  account \<open>a\<close> and the token \<open>~\<close> the request carries \<open>Basic YTp-\<close>, and the standard
  encoding is \<open>YTp+\<close>. (The \<open>Accept\<close> header is as claimed.)
\<close>

theorem authorization_header_urlsafe:
  "take 1 (snd (callSigridAPI env
      \<lparr> baseURL = b, account = ''a'', token = ''~'', urlPartnerName = p,
        urlCustomerName = c, urlSystemName = s \<rparr> api path []))
   = [Urlopen \<lparr> url = b @ ''/rest/'' @ api @ path, http_method = ''GET'',
        headers = [(''Accept'', ''application/json''), (''Authorization'', ''Basic YTp-'')],
        payload = None \<rparr>]
   \<and> ''Basic '' @ b64encode (utf8 ''a:~'') = ''Basic YTp+''"
  by (simp add: callSigridAPI_def urlopen_def api_request_def log_msg_def
        b64encode_example urlsafe_b64encode_example split: sum.split option.split)

subsection \<open>Traces\<close>

lemma requests_sent_simps [simp]:
  "requests_sent [] = 0"
  "requests_sent (w @ [Urlopen rq]) = Suc (requests_sent w)"
  "requests_sent (log_msg m w) = requests_sent w"
  "requests_sent (print_line m w) = requests_sent w"
  "requests_sent (sleep n w) = requests_sent w"
  by (simp_all add: requests_sent_def log_msg_def print_line_def sleep_def)

lemma io_events_simps [simp]:
  "io_events [] = []"
  "io_events (w @ [Urlopen rq]) = io_events w @ [Urlopen rq]"
  "io_events (log_msg m w) = io_events w"
  "io_events (print_line m w) = io_events w"
  "io_events (sleep n w) = io_events w @ [Sleep n]"
  by (simp_all add: io_events_def log_msg_def print_line_def sleep_def)

lemma slept_simps [simp]:
  "slept_since_last_request (w @ [Urlopen rq]) = []"
  "slept_since_last_request (log_msg m w) = slept_since_last_request w"
  "slept_since_last_request (print_line m w) = slept_since_last_request w"
  "slept_since_last_request (sleep n w) = Sleep n # slept_since_last_request w"
  by (simp_all add: slept_since_last_request_def log_msg_def print_line_def sleep_def)

lemma callSigridAPI_raises:
  "net env (requests_sent w) = Inl e \<Longrightarrow>
   callSigridAPI env self api path w = (Inl e, w @ [Urlopen (api_request self api path)])"
  by (simp add: callSigridAPI_def urlopen_def)

lemma callSigridAPI_world:
  assumes "callSigridAPI env self api path w = (r, w1)"
  shows "requests_sent w1 = Suc (requests_sent w)"
    and "io_events w1 = io_events w @ [Urlopen (api_request self api path)]"
    and "slept_since_last_request w1 = []"
  using assms
  by (auto simp: callSigridAPI_def urlopen_def split: sum.splits option.splits if_splits)

lemma processHttpError_world:
  assumes "processHttpError code w = (r, w1)"
  shows "requests_sent w1 = requests_sent w"
    and "io_events w1 = io_events w"
    and "slept_since_last_request w1 = slept_since_last_request w"
  using assms by (auto simp: processHttpError_def split: if_splits)

lemma prepareUpload_world:
  "prepareUpload self tree getsize sourceDir outputFile w = (z, r, w1) \<Longrightarrow>
   requests_sent w1 = requests_sent w \<and> io_events w1 = io_events w"
  by (auto simp: prepareUpload_def Let_def split: if_splits)

lemma uploadBinaryFile_world:
  "uploadBinaryFile env u z n w = (r, w1) \<Longrightarrow>
   requests_sent w1 = Suc (requests_sent w) \<and> slept_since_last_request w1 = []
   \<and> (\<forall>e. net env (requests_sent w) = Inl e \<longrightarrow> r = Inl e)"
  by (auto simp: uploadBinaryFile_def urlopen_def Let_def split: sum.splits)

lemma RETRY_ATTEMPTS_Suc: "RETRY_ATTEMPTS = Suc (Suc (Suc (Suc (Suc 0))))"
  by (simp add: RETRY_ATTEMPTS_def)

lemma POLL_ATTEMPTS_Suc: "POLL_ATTEMPTS = Suc 29"
  by (simp add: POLL_ATTEMPTS_def)

subsection \<open>Polling\<close>

text \<open>One attempt that finds the results not ready leads to the next, after a sleep.\<close>

lemma fetch_loop_exI:
  "requests_sent x = a \<and> io_events x = b \<Longrightarrow>
   \<exists>w1. fetchAnalysisResults_loop env self aid n x = fetchAnalysisResults_loop env self aid n w1
        \<and> requests_sent w1 = a \<and> io_events w1 = b"
  by blast

lemma fetch_step_not_ready:
  assumes "not_ready env (net env (requests_sent w))"
  shows "\<exists>w1. fetchAnalysisResults_loop env self aid (Suc n) w =
                 fetchAnalysisResults_loop env self aid n w1
             \<and> requests_sent w1 = Suc (requests_sent w)
             \<and> io_events w1 = io_events w @ [Urlopen (poll_request env self aid), Sleep 60]"
proof (cases "net env (requests_sent w)")
  case (Inl e)
  then have "e = HTTPError 404" using assms by (simp add: not_ready_def)
  then show ?thesis
    using Inl
    by (auto simp: callSigridAPI_raises processHttpError_def wait_for_results_def
          POLL_INTERVAL_def poll_request_def intro!: fetch_loop_exI)
next
  case (Inr rsp)
  show ?thesis
  proof (cases "status rsp = 204")
    case True
    then show ?thesis
      using Inr
      by (auto simp: callSigridAPI_def urlopen_def wait_for_results_def
          POLL_INTERVAL_def poll_request_def intro!: fetch_loop_exI)
  next
    case False
    then obtain t where t: "utf8_decode (body rsp) = Some t"
        "t = [] \<or> json_loads env t = Some (JObject []) \<or> json_loads env t = None"
      using assms Inr by (auto simp: not_ready_def split: option.splits)
    show ?thesis
      using Inr False t
      by (auto simp: callSigridAPI_def urlopen_def wait_for_results_def
          POLL_INTERVAL_def poll_request_def intro!: fetch_loop_exI)
  qed
qed

lemma fetch_step_payload:
  assumes "result_payload env (net env (requests_sent w)) = Some v"
  shows "fetchAnalysisResults_loop env self aid (Suc n) w =
           (Inr v, w @ [Urlopen (poll_request env self aid)])"
  using assms
  by (auto simp: result_payload_def callSigridAPI_def urlopen_def poll_request_def
        split: sum.splits option.splits if_splits)

lemma fetch_loop_not_ready:
  assumes "\<forall>i<k. not_ready env (net env (requests_sent w + i))" and "k \<le> n"
  shows "\<exists>w1. fetchAnalysisResults_loop env self aid n w =
                 fetchAnalysisResults_loop env self aid (n - k) w1
             \<and> requests_sent w1 = requests_sent w + k
             \<and> io_events w1 =
                 io_events w @ concat (replicate k [Urlopen (poll_request env self aid), Sleep 60])"
  using assms
proof (induction k arbitrary: w n)
  case 0
  then show ?case by (auto intro!: fetch_loop_exI)
next
  case (Suc k)
  then obtain n' where n: "n = Suc n'" by (cases n) auto
  from Suc.prems(1) have "not_ready env (net env (requests_sent w))"
    by (metis add.right_neutral zero_less_Suc)
  from fetch_step_not_ready [OF this, of self aid n']
  obtain w1 where w1: "fetchAnalysisResults_loop env self aid (Suc n') w =
                 fetchAnalysisResults_loop env self aid n' w1"
      "requests_sent w1 = Suc (requests_sent w)"
      "io_events w1 = io_events w @ [Urlopen (poll_request env self aid), Sleep 60]"
    by blast
  have "\<forall>i<k. not_ready env (net env (requests_sent w1 + i))"
  proof (intro allI impI)
    fix i assume "i < k"
    then have "Suc i < Suc k" by simp
    with Suc.prems(1) have "not_ready env (net env (requests_sent w + Suc i))" by blast
    then show "not_ready env (net env (requests_sent w1 + i))" using w1(2) by simp
  qed
  moreover have "k \<le> n'" using Suc.prems(2) n by simp
  ultimately obtain w2 where w2: "fetchAnalysisResults_loop env self aid n' w1 =
                 fetchAnalysisResults_loop env self aid (n' - k) w2"
      "requests_sent w2 = requests_sent w1 + k"
      "io_events w2 =
                 io_events w1 @ concat (replicate k [Urlopen (poll_request env self aid), Sleep 60])"
    using Suc.IH [of w1 n'] by blast
  show ?case
    using w1 w2 n by (intro exI [of _ w2]) simp
qed

text \<open>
  While polling, HTTP 204, an empty body, the empty JSON object, HTTP 404 and a body
  whose text does not parse are transient: after \<open>k\<close> such replies in a row the client
  has raised nothing and has made \<open>k\<close> requests, each followed by a sleep of 60 seconds.
  If the next reply is a non-empty well-formed payload (and \<open>k < 30\<close>), one more request
  is made and the payload is returned. If all 30 attempts find the results not ready,
  the client raises \<^verbatim>\<open>SystemExit(1)\<close>: the process ends with status 1.
\<close>

lemma polling_until_result:
  assumes "k \<le> 30"
    and "\<forall>i<k. not_ready env (net env (requests_sent w + i))"
  shows "(k < 30 \<and> result_payload env (net env (requests_sent w + k)) = Some v \<longrightarrow>
            (\<exists>w'. fetchAnalysisResults env self aid w = (Inr v, w')
                 \<and> io_events w' =
                     io_events w @ concat (replicate k [Urlopen (poll_request env self aid), Sleep 60])
                       @ [Urlopen (poll_request env self aid)]))
       \<and> (k = 30 \<longrightarrow>
            (\<exists>w'. fetchAnalysisResults env self aid w = (Inl (SystemExit 1), w')
                 \<and> process_exit_status (fst (fetchAnalysisResults env self aid w)) = 1
                 \<and> io_events w' =
                     io_events w @ concat (replicate 30 [Urlopen (poll_request env self aid), Sleep 60])))"
proof -
  from fetch_loop_not_ready [OF assms(2), of 30 self aid] assms(1)
  obtain w1 where w1: "fetchAnalysisResults_loop env self aid 30 w =
                 fetchAnalysisResults_loop env self aid (30 - k) w1"
      "requests_sent w1 = requests_sent w + k"
      "io_events w1 =
                 io_events w @ concat (replicate k [Urlopen (poll_request env self aid), Sleep 60])"
    by blast
  have a: ?thesis if "k < 30" "result_payload env (net env (requests_sent w + k)) = Some v"
  proof -
    from that(1) obtain m where m: "30 - k = Suc m" by (cases "30 - k") auto
    have "fetchAnalysisResults_loop env self aid (Suc m) w1 =
           (Inr v, w1 @ [Urlopen (poll_request env self aid)])"
      using fetch_step_payload that(2) w1(2) by simp
    then show ?thesis
      using w1 m that(1) by (simp add: fetchAnalysisResults_def POLL_ATTEMPTS_def)
  qed
  have b: ?thesis if "k = 30"
    using w1 that by (simp add: fetchAnalysisResults_def POLL_ATTEMPTS_def process_exit_status_def)
  show ?thesis using a b by blast
qed

text \<open>
  Five transient replies of the five kinds, then the results; and a service that only
  ever answers 404.
\<close>

lemma polling_until_result_example:
  "fst (fetchAnalysisResults (example_env replies_poll) example_client (JString ''run1'') [])
     = Inr (JObject [(''baseline'', JString ''20200101'')])
   \<and> io_events (snd (fetchAnalysisResults (example_env replies_poll) example_client
                       (JString ''run1'') []))
     = concat (replicate 5
         [Urlopen (poll_request (example_env replies_poll) example_client (JString ''run1'')),
          Sleep 60])
       @ [Urlopen (poll_request (example_env replies_poll) example_client (JString ''run1''))]
   \<and> fst (fetchAnalysisResults (example_env (\<lambda>n. Inl (HTTPError 404))) example_client
             (JString ''run1'') [])
     = Inl (SystemExit 1)"
proof -
  have five: "i = 0 \<or> i = 1 \<or> i = 2 \<or> i = 3 \<or> i = 4" if "i < 5" for i :: nat
    using that by arith
  have a: "\<forall>i<5. not_ready (example_env replies_poll)
                    (net (example_env replies_poll) (requests_sent [] + i))"
    by (auto dest!: five simp: not_ready_def example_env_def replies_poll_def example_loads_def
          ascii_def)
  have b: "result_payload (example_env replies_poll)
             (net (example_env replies_poll) (requests_sent [] + 5))
           = Some (JObject [(''baseline'', JString ''20200101'')])"
    by (simp add: result_payload_def example_env_def replies_poll_def example_loads_def
          ascii_def)
  have c: "\<forall>i<30. not_ready (example_env (\<lambda>n. Inl (HTTPError 404)))
                    (net (example_env (\<lambda>n. Inl (HTTPError 404))) (requests_sent [] + i))"
    by (simp add: not_ready_def example_env_def)
  from polling_until_result [OF _ a, of "JObject [(''baseline'', JString ''20200101'')]"
         example_client "JString ''run1''"] b
  have 1: "fst (fetchAnalysisResults (example_env replies_poll) example_client (JString ''run1'') [])
     = Inr (JObject [(''baseline'', JString ''20200101'')])
   \<and> io_events (snd (fetchAnalysisResults (example_env replies_poll) example_client
                       (JString ''run1'') []))
     = concat (replicate 5
         [Urlopen (poll_request (example_env replies_poll) example_client (JString ''run1'')),
          Sleep 60])
       @ [Urlopen (poll_request (example_env replies_poll) example_client (JString ''run1''))]"
    by auto
  from polling_until_result [OF _ c, of undefined example_client "JString ''run1''"]
  have 2: "fst (fetchAnalysisResults (example_env (\<lambda>n. Inl (HTTPError 404))) example_client
             (JString ''run1'') [])
     = Inl (SystemExit 1)"
    by auto
  from 1 2 show ?thesis by simp
qed

text \<open>
  Claim C2 says that a malformed or incomplete body is transient while polling: no
  error is raised and another attempt follows. The code decodes the body as UTF-8
  before it parses it, and \<^verbatim>\<open>fetchAnalysisResults\<close> catches \<^verbatim>\<open>HTTPError\<close> and
  \<^verbatim>\<open>JSONDecodeError\<close> only. A body cut inside a multi-byte character raises
  \<^verbatim>\<open>UnicodeDecodeError\<close>, which leaves the loop after one request, with no sleep and
  no further attempt, and ends the process with status 1.
\<close>

theorem undecodable_body_ends_polling:
  "fetchAnalysisResults
     (example_env (\<lambda>n. Inr \<lparr> status = 200, body = body_cut_in_character \<rparr>))
     example_client (JString ''run1'') []
   = (Inl UnicodeDecodeError,
      [Urlopen (poll_request
                  (example_env (\<lambda>n. Inr \<lparr> status = 200, body = body_cut_in_character \<rparr>))
                  example_client (JString ''run1''))])
   \<and> exit_status_of UnicodeDecodeError = 1"
  by (simp add: fetchAnalysisResults_def POLL_ATTEMPTS_Suc callSigridAPI_def urlopen_def
        example_env_def body_cut_in_character_def poll_request_def requests_sent_def
        del: Suc_numeral)

subsection \<open>The location request\<close>

text \<open>
  What the claim says of HTTP 502 holds: each 502 is followed by a sleep of 60 seconds
  and the next attempt, and five of them in a row end in \<^verbatim>\<open>SystemExit(1)\<close>.
\<close>

lemma obtain_step_502:
  assumes "net env (requests_sent w) = Inl (HTTPError 502)"
  shows "obtainUploadLocation_loop env self (Suc n) w =
           obtainUploadLocation_loop env self n
             (sleep 60 (log_msg ''Retrying''
                (w @ [Urlopen (api_request self ''inboundresults'' (upload_location_path self))])))"
  using assms by (simp add: callSigridAPI_raises POLL_INTERVAL_def)

lemma obtain_loop_502:
  assumes "\<forall>i<k. net env (requests_sent w + i) = Inl (HTTPError 502)" and "k \<le> n"
  shows "\<exists>w1. obtainUploadLocation_loop env self n w =
                 obtainUploadLocation_loop env self (n - k) w1
             \<and> requests_sent w1 = requests_sent w + k
             \<and> io_events w1 =
                 io_events w @ concat (replicate k
                   [Urlopen (api_request self ''inboundresults'' (upload_location_path self)),
                    Sleep 60])"
  using assms
proof (induction k arbitrary: w n)
  case 0
  then show ?case by (intro exI [of _ w]) simp
next
  case (Suc k)
  then obtain n' where n: "n = Suc n'" by (cases n) auto
  define w1 where "w1 = sleep 60 (log_msg ''Retrying''
      (w @ [Urlopen (api_request self ''inboundresults'' (upload_location_path self))]))"
  from Suc.prems(1) have "net env (requests_sent w) = Inl (HTTPError 502)"
    by (metis add.right_neutral zero_less_Suc)
  then have step: "obtainUploadLocation_loop env self (Suc n') w =
      obtainUploadLocation_loop env self n' w1"
    unfolding w1_def by (rule obtain_step_502)
  have "\<forall>i<k. net env (requests_sent w1 + i) = Inl (HTTPError 502)"
  proof (intro allI impI)
    fix i assume "i < k"
    then have "Suc i < Suc k" by simp
    with Suc.prems(1) have "net env (requests_sent w + Suc i) = Inl (HTTPError 502)" by blast
    then show "net env (requests_sent w1 + i) = Inl (HTTPError 502)" by (simp add: w1_def)
  qed
  moreover have "k \<le> n'" using Suc.prems(2) n by simp
  ultimately obtain w2 where w2: "obtainUploadLocation_loop env self n' w1 =
                 obtainUploadLocation_loop env self (n' - k) w2"
      "requests_sent w2 = requests_sent w1 + k"
      "io_events w2 = io_events w1 @ concat (replicate k
                   [Urlopen (api_request self ''inboundresults'' (upload_location_path self)),
                    Sleep 60])"
    using Suc.IH [of w1 n'] by blast
  show ?case
    using step w2 n by (intro exI [of _ w2]) (simp add: w1_def)
qed

lemma location_request_gives_up_after_five:
  assumes "\<forall>i<5. net env (requests_sent w + i) = Inl (HTTPError 502)"
  shows "fst (obtainUploadLocation env self w) = Inl (SystemExit 1)
       \<and> io_events (snd (obtainUploadLocation env self w)) =
           io_events w @ concat (replicate 5
             [Urlopen (api_request self ''inboundresults'' (upload_location_path self)), Sleep 60])"
proof -
  from obtain_loop_502 [OF assms, of 5 self]
  obtain w1 where "obtainUploadLocation_loop env self 5 w = obtainUploadLocation_loop env self 0 w1"
      "io_events w1 = io_events w @ concat (replicate 5
             [Urlopen (api_request self ''inboundresults'' (upload_location_path self)), Sleep 60])"
    by auto
  then show ?thesis by (simp add: obtainUploadLocation_def RETRY_ATTEMPTS_def)
qed

text \<open>
  Claim C3 says that HTTP 502 is the only condition that leads to another location
  request. The code hands every other status to \<^verbatim>\<open>processHttpError\<close>, which returns
  normally for 404 (the case meant for polling), and the loop goes on: after a 404
  the client asks again, at once and without sleeping, and here gets the location.
\<close>

theorem location_request_retries_404:
  "obtainUploadLocation (example_env replies_404_first) example_client [] =
     (Inr (JObject [(''uploadUrl'', JString ''https://upload''), (''ciRunId'', JString ''run1'')]),
      [Urlopen (api_request example_client ''inboundresults'' (upload_location_path example_client)),
       Log ''Analysis results not yet available'',
       Urlopen (api_request example_client ''inboundresults'' (upload_location_path example_client))])"
  by code_simp

subsection \<open>Authorization failures\<close>

lemma obtain_loop_unauthorized:
  assumes "c = 401 \<or> c = 403" and "net env k = Inl (HTTPError c)"
  shows "obtainUploadLocation_loop env self n w = (res, w') \<Longrightarrow> requests_sent w \<le> k \<Longrightarrow>
         k < requests_sent w' \<Longrightarrow>
         res = Inl (SystemExit 1) \<and> requests_sent w' = Suc k \<and> slept_since_last_request w' = []"
proof (induction n arbitrary: w)
  case 0
  then show ?case by auto
next
  case (Suc n)
  obtain r1 w1 where call:
    "callSigridAPI env self ''inboundresults'' (upload_location_path self) w = (r1, w1)"
    by (cases "callSigridAPI env self ''inboundresults'' (upload_location_path self) w")
  note w1 = callSigridAPI_world [OF call]
  show ?case
  proof (cases "k = requests_sent w")
    case True
    then have "callSigridAPI env self ''inboundresults'' (upload_location_path self) w =
        (Inl (HTTPError c), w @ [Urlopen (api_request self ''inboundresults'' (upload_location_path self))])"
      using assms(2) callSigridAPI_raises by simp
    then show ?thesis
      using Suc.prems(1) assms(1) True by (auto simp: processHttpError_def)
  next
    case False
    then have le: "requests_sent w1 \<le> k" using Suc.prems(2) w1(1) by simp
    show ?thesis
    proof (cases r1)
      case (Inr v)
      then show ?thesis using Suc.prems call le by auto
    next
      case (Inl e)
      show ?thesis
      proof (cases e)
        case (HTTPError code)
        show ?thesis
        proof (cases "code = 502")
          case True
          then have "obtainUploadLocation_loop env self n (sleep POLL_INTERVAL (log_msg ''Retrying'' w1))
                       = (res, w')"
            using Suc.prems(1) call Inl HTTPError by simp
          then show ?thesis using Suc.IH [of "sleep POLL_INTERVAL (log_msg ''Retrying'' w1)"] le Suc.prems(3) by simp
        next
          case False
          obtain r2 w2 where p: "processHttpError code w1 = (r2, w2)"
            by (cases "processHttpError code w1")
          note w2 = processHttpError_world [OF p]
          show ?thesis
          proof (cases r2)
            case (Inl e2)
            then show ?thesis using Suc.prems call \<open>r1 = Inl e\<close> HTTPError False p w2 le by auto
          next
            case (Inr u)
            then have "obtainUploadLocation_loop env self n w2 = (res, w')"
              using Suc.prems(1) call \<open>r1 = Inl e\<close> HTTPError False p by simp
            then show ?thesis using Suc.IH [of w2] le w2 Suc.prems(3) by simp
          qed
        qed
      qed (use Suc.prems call Inl le in auto)
    qed
  qed
qed

lemma fetch_loop_unauthorized:
  assumes "c = 401 \<or> c = 403" and "net env k = Inl (HTTPError c)"
  shows "fetchAnalysisResults_loop env self aid n w = (res, w') \<Longrightarrow> requests_sent w \<le> k \<Longrightarrow>
         k < requests_sent w' \<Longrightarrow>
         res = Inl (SystemExit 1) \<and> requests_sent w' = Suc k \<and> slept_since_last_request w' = []"
proof (induction n arbitrary: w)
  case 0
  then show ?case by auto
next
  case (Suc n)
  obtain r1 w1 where call:
    "callSigridAPI env self ''analysis-results'' (results_path env self aid) w = (r1, w1)"
    by (cases "callSigridAPI env self ''analysis-results'' (results_path env self aid) w")
  note w1 = callSigridAPI_world [OF call]
  show ?case
  proof (cases "k = requests_sent w")
    case True
    then have "callSigridAPI env self ''analysis-results'' (results_path env self aid) w =
        (Inl (HTTPError c), w @ [Urlopen (api_request self ''analysis-results'' (results_path env self aid))])"
      using assms(2) callSigridAPI_raises by simp
    then show ?thesis
      using Suc.prems(1) assms(1) True by (auto simp: processHttpError_def)
  next
    case False
    then have le: "requests_sent w1 \<le> k" using Suc.prems(2) w1(1) by simp
    show ?thesis
    proof (cases r1)
      case (Inr v)
      show ?thesis
      proof (cases "v = JObject []")
        case True
        then have "fetchAnalysisResults_loop env self aid n (wait_for_results w1) = (res, w')"
          using Suc.prems(1) call Inr by simp
        then show ?thesis
          using Suc.IH [of "wait_for_results w1"] le Suc.prems(3)
          by (simp add: wait_for_results_def)
      next
        case False
        then show ?thesis using Suc.prems call le Inr by auto
      qed
    next
      case (Inl e)
      show ?thesis
      proof (cases e)
        case (HTTPError code)
        obtain r2 w2 where p: "processHttpError code w1 = (r2, w2)"
          by (cases "processHttpError code w1")
        note w2 = processHttpError_world [OF p]
        show ?thesis
        proof (cases r2)
          case (Inl e2)
          then show ?thesis using Suc.prems call \<open>r1 = Inl e\<close> HTTPError p w2 le by auto
        next
          case (Inr u)
          then have "fetchAnalysisResults_loop env self aid n (wait_for_results w2) = (res, w')"
            using Suc.prems(1) call \<open>r1 = Inl e\<close> HTTPError p by simp
          then show ?thesis
            using Suc.IH [of "wait_for_results w2"] le w2 Suc.prems(3)
            by (simp add: wait_for_results_def)
        qed
      next
        case JSONDecodeError
        then have "fetchAnalysisResults_loop env self aid n
            (wait_for_results (log_msg ''Received incomplete analysis results'' w1)) = (res, w')"
          using Suc.prems(1) call Inl by simp
        then show ?thesis
          using Suc.IH [of "wait_for_results (log_msg ''Received incomplete analysis results'' w1)"]
            le Suc.prems(3)
          by (simp add: wait_for_results_def)
      qed (use Suc.prems call Inl le in auto)
    qed
  qed
qed

lemma submitUpload_unauthorized:
  assumes "c = 401 \<or> c = 403" and "net env k = Inl (HTTPError c)"
    and run: "submitUpload env self tree getsize sourceDir excludes hist prefix w = (res, w')"
    and "requests_sent w \<le> k" and "k < requests_sent w'"
  shows "(\<exists>e. res = Inl e \<and> exit_status_of e = 1) \<and> requests_sent w' = Suc k
         \<and> slept_since_last_request w' = []"
proof -
  define packer where "packer = SystemUploadPacker_init excludes hist prefix"
  define upload where "upload = ''sigrid-upload-'' @ timestamp env @ ''.zip''"
  obtain z r0 w0 where prep:
    "prepareUpload packer tree getsize sourceDir upload (log_msg ''Creating upload'' w) = (z, r0, w0)"
    by (cases "prepareUpload packer tree getsize sourceDir upload (log_msg ''Creating upload'' w)")
  have w0: "requests_sent w0 = requests_sent w" using prepareUpload_world [OF prep] by simp
  show ?thesis
  proof (cases r0)
    case (Inl e)
    then have "w' = w0" using run prep by (simp add: submitUpload_def packer_def upload_def)
    then show ?thesis using w0 assms(4,5) by simp
  next
    case (Inr u)
    obtain r1 w1 where loc:
      "obtainUploadLocation env self (log_msg ''Preparing upload'' w0) = (r1, w1)"
      by (cases "obtainUploadLocation env self (log_msg ''Preparing upload'' w0)")
    show ?thesis
    proof (cases "k < requests_sent w1")
      case True
      from obtain_loop_unauthorized [OF assms(1,2) loc [unfolded obtainUploadLocation_def] _ True]
      have a: "r1 = Inl (SystemExit 1)" "requests_sent w1 = Suc k" "slept_since_last_request w1 = []"
        using w0 assms(4) by simp_all
      then have "res = Inl (SystemExit 1) \<and> w' = w1"
        using run prep Inr loc by (simp add: submitUpload_def packer_def upload_def)
      then show ?thesis using a by simp
    next
      case False
      show ?thesis
      proof (cases r1)
        case (Inl e)
        then have "w' = w1"
          using run prep Inr loc by (simp add: submitUpload_def packer_def upload_def)
        then show ?thesis using False assms(5) by simp
      next
        case r1: (Inr loc_v)
        show ?thesis
        proof (cases "subscript loc_v ''uploadUrl''")
          case (Inl e)
          then have "w' = w1"
            using run prep Inr loc r1 by (simp add: submitUpload_def packer_def upload_def)
          then show ?thesis using False assms(5) by simp
        next
          case url: (Inr uploadUrl)
          show ?thesis
          proof (cases "subscript loc_v ''ciRunId''")
            case (Inl e)
            then have "w' = w1"
              using run prep Inr loc r1 url by (simp add: submitUpload_def packer_def upload_def)
            then show ?thesis using False assms(5) by simp
          next
            case aid: (Inr analysisId)
            define w2 where "w2 = log_msg ''Submitting upload''
                  (log_msg (''Sigrid CI analysis ID: '' @ str_json env analysisId) w1)"
            obtain r3 w3 where up:
              "uploadBinaryFile env (str_json env uploadUrl) z (getsize z) w2 = (r3, w3)"
              by (cases "uploadBinaryFile env (str_json env uploadUrl) z (getsize z) w2")
            note w3 = uploadBinaryFile_world [OF up]
            have "w' = w3"
              using run prep Inr loc r1 url aid up
              by (auto simp: submitUpload_def packer_def upload_def w2_def split: sum.splits if_splits)
            then have k: "k = requests_sent w2" using False assms(5) w3 by (simp add: w2_def)
            then have "r3 = Inl (HTTPError c)" using w3 assms(2) by simp
            then have "res = Inl (HTTPError c)"
              using run prep Inr loc r1 url aid up
              by (auto simp: submitUpload_def packer_def upload_def w2_def split: sum.splits if_splits)
            then show ?thesis using w3 k \<open>w' = w3\<close> by simp
          qed
        qed
      qed
    qed
  qed
qed

text \<open>
  Claim C4. If the \<open>k\<close>-th request of the run is answered with HTTP 401 or 403, then
  whichever function made it (\<^verbatim>\<open>submitUpload\<close>, for the location request and the
  upload, or \<^verbatim>\<open>fetchAnalysisResults\<close>, for a poll) raises an exception that ends the
  process with status 1, that request is the last one made, and the process does not
  sleep after it.
\<close>

theorem unauthorized_is_fatal:
  assumes "c = 401 \<or> c = 403" and "net env k = Inl (HTTPError c)"
  shows "(submitUpload env self tree getsize sourceDir excludes hist prefix w = (res, w')
            \<and> requests_sent w \<le> k \<and> k < requests_sent w' \<longrightarrow>
          (\<exists>e. res = Inl e \<and> exit_status_of e = 1) \<and> requests_sent w' = Suc k
            \<and> slept_since_last_request w' = [])
       \<and> (fetchAnalysisResults env self aid v = (res2, v')
            \<and> requests_sent v \<le> k \<and> k < requests_sent v' \<longrightarrow>
          res2 = Inl (SystemExit 1) \<and> exit_status_of (SystemExit 1) = 1 \<and> requests_sent v' = Suc k
            \<and> slept_since_last_request v' = [])"
  using submitUpload_unauthorized [OF assms]
        fetch_loop_unauthorized [OF assms, of self aid POLL_ATTEMPTS v res2 v']
  by (auto simp: fetchAnalysisResults_def)

text \<open>
  A location request answered 502 and then 401, and a first poll answered 403.
\<close>

lemma uploadSizeMB_small: "uploadSizeMB 1000 = 1"
  by (simp add: uploadSizeMB_def round_div_def Let_def)

theorem unauthorized_is_fatal_witness:
  "(\<exists>e. fst (submitUpload (example_env replies_502_then_401) example_client (Dir [''a.py''] [])
              (\<lambda>z. 1000) ''src'' [] False [] []) = Inl e \<and> exit_status_of e = 1)
   \<and> requests_sent (snd (submitUpload (example_env replies_502_then_401) example_client
                            (Dir [''a.py''] []) (\<lambda>z. 1000) ''src'' [] False [] [])) = 2
   \<and> fst (fetchAnalysisResults (example_env (\<lambda>n. Inl (HTTPError 403))) example_client
             (JString ''run1'') []) = Inl (SystemExit 1)
   \<and> requests_sent (snd (fetchAnalysisResults (example_env (\<lambda>n. Inl (HTTPError 403)))
                            example_client (JString ''run1'') [])) = 1"
proof -
  have a: "net (example_env replies_502_then_401) 1 = Inl (HTTPError 401)"
    by (simp add: example_env_def replies_502_then_401_def)
  have b: "1 < requests_sent (snd (submitUpload (example_env replies_502_then_401) example_client
                            (Dir [''a.py''] []) (\<lambda>z. 1000) ''src'' [] False [] []))"
    by (simp add: submitUpload_def prepareUpload_def Let_def uploadSizeMB_small
          SystemUploadPacker_init_def obtainUploadLocation_def RETRY_ATTEMPTS_Suc
          callSigridAPI_def urlopen_def example_env_def replies_502_then_401_def
          processHttpError_def requests_sent_def log_msg_def sleep_def)
  have c: "net (example_env (\<lambda>n. Inl (HTTPError 403))) 0 = Inl (HTTPError 403)"
    by (simp add: example_env_def)
  have d: "0 < requests_sent (snd (fetchAnalysisResults (example_env (\<lambda>n. Inl (HTTPError 403)))
                            example_client (JString ''run1'') []))"
    by (simp add: fetchAnalysisResults_def POLL_ATTEMPTS_Suc callSigridAPI_def urlopen_def
          example_env_def processHttpError_def requests_sent_def log_msg_def sleep_def
          del: Suc_numeral)
  from unauthorized_is_fatal [OF _ a, where self = example_client and tree = "Dir [''a.py''] []"
          and getsize = "\<lambda>z. 1000" and sourceDir = "''src''" and excludes = "[]" and hist = False
          and prefix = "[]" and w = "[]"
          and res = "fst (submitUpload (example_env replies_502_then_401) example_client
                            (Dir [''a.py''] []) (\<lambda>z. 1000) ''src'' [] False [] [])"
          and w' = "snd (submitUpload (example_env replies_502_then_401) example_client
                            (Dir [''a.py''] []) (\<lambda>z. 1000) ''src'' [] False [] [])"] b
  have 1: "(\<exists>e. fst (submitUpload (example_env replies_502_then_401) example_client (Dir [''a.py''] [])
              (\<lambda>z. 1000) ''src'' [] False [] []) = Inl e \<and> exit_status_of e = 1)
   \<and> requests_sent (snd (submitUpload (example_env replies_502_then_401) example_client
                            (Dir [''a.py''] []) (\<lambda>z. 1000) ''src'' [] False [] [])) = 2"
    by simp
  from unauthorized_is_fatal [OF _ c, where self = example_client and aid = "JString ''run1''"
          and v = "[]"
          and ?res2.0 = "fst (fetchAnalysisResults (example_env (\<lambda>n. Inl (HTTPError 403)))
                            example_client (JString ''run1'') [])"
          and v' = "snd (fetchAnalysisResults (example_env (\<lambda>n. Inl (HTTPError 403)))
                            example_client (JString ''run1'') [])"] d
  have 2: "fst (fetchAnalysisResults (example_env (\<lambda>n. Inl (HTTPError 403))) example_client
             (JString ''run1'') []) = Inl (SystemExit 1)
   \<and> requests_sent (snd (fetchAnalysisResults (example_env (\<lambda>n. Inl (HTTPError 403)))
                            example_client (JString ''run1'') [])) = 1"
    by simp
  from 1 2 show ?thesis by simp
qed

subsection \<open>The size cap\<close>

text \<open>
  Whenever the size of the archive file, rounded to whole megabytes (to the nearest, a
  tie to the even one, and at least 1), exceeds the cap, \<^verbatim>\<open>prepareUpload\<close> raises; and
  \<^verbatim>\<open>submitUpload\<close>, whose packer has the cap 500, then raises that error without having
  made a request or slept.
\<close>

lemma oversized_upload_fails_before_network:
  "(MAX_UPLOAD_SIZE_MB self
      < uploadSizeMB (getsize (write_walk self outputFile (os_walk sourceDir tree))) \<longrightarrow>
    (\<exists>msg w'. prepareUpload self tree getsize sourceDir outputFile w
                 = (write_walk self outputFile (os_walk sourceDir tree), Inl (Exception msg), w')
             \<and> io_events w' = io_events w))
   \<and> (500 < uploadSizeMB (getsize (write_walk (SystemUploadPacker_init excludes hist prefix)
                                      (''sigrid-upload-'' @ timestamp env @ ''.zip'')
                                      (os_walk sourceDir tree))) \<longrightarrow>
    (\<exists>msg w'. submitUpload env client tree getsize sourceDir excludes hist prefix w
                 = (Inl (Exception msg), w')
             \<and> io_events w' = io_events w \<and> requests_sent w' = requests_sent w))"
  by (auto simp: prepareUpload_def submitUpload_def Let_def SystemUploadPacker_init_def)

text \<open>
  A cap of 1 MB and an archive of 2 MB; and an archive of 600 MB under the default cap.
\<close>

lemma str_nat_1: "str_nat 1 = ''1''"
  by code_simp

lemma oversized_upload_fails_before_network_example:
  "fst (snd (prepareUpload ((SystemUploadPacker_init [] True [])\<lparr> MAX_UPLOAD_SIZE_MB := 1 \<rparr>)
               (Dir [''a.py''] []) (\<lambda>z. 2 * 1024 * 1024) ''src'' ''upload.zip'' []))
     = Inl (Exception ''Upload exceeds maximum size of 1 MB'')
   \<and> io_events (snd (submitUpload (example_env replies_502_then_401) example_client
                       (Dir [''a.py''] []) (\<lambda>z. 600 * 1024 * 1024) ''src'' [] True [] [])) = []"
proof -
  have a: "uploadSizeMB (2 * 1024 * 1024) = 2" "uploadSizeMB (600 * 1024 * 1024) = 600"
    by (simp_all add: uploadSizeMB_def round_div_def Let_def)
  from oversized_upload_fails_before_network
         [where self = "(SystemUploadPacker_init [] True [])\<lparr> MAX_UPLOAD_SIZE_MB := 1 \<rparr>"
            and getsize = "\<lambda>z. 2 * 1024 * 1024" and outputFile = "''upload.zip''"
            and sourceDir = "''src''" and tree = "Dir [''a.py''] []" and w = "[]"
            and excludes = "[]" and hist = True and prefix = "[]"
            and env = "example_env replies_502_then_401" and client = example_client]
  have 1: "fst (snd (prepareUpload ((SystemUploadPacker_init [] True [])\<lparr> MAX_UPLOAD_SIZE_MB := 1 \<rparr>)
               (Dir [''a.py''] []) (\<lambda>z. 2 * 1024 * 1024) ''src'' ''upload.zip'' []))
     = Inl (Exception ''Upload exceeds maximum size of 1 MB'')"
    using a str_nat_1 by (auto simp: prepareUpload_def Let_def SystemUploadPacker_init_def)
  from oversized_upload_fails_before_network
         [where self = "SystemUploadPacker_init [] True []" and outputFile = "''upload.zip''"
            and getsize = "\<lambda>z. 600 * 1024 * 1024" and sourceDir = "''src''"
            and tree = "Dir [''a.py''] []" and w = "[]" and excludes = "[]" and hist = True
            and prefix = "[]" and env = "example_env replies_502_then_401"
            and client = example_client]
  have 2: "io_events (snd (submitUpload (example_env replies_502_then_401) example_client
                       (Dir [''a.py''] []) (\<lambda>z. 600 * 1024 * 1024) ''src'' [] True [] [])) = []"
    using a by auto
  from 1 2 show ?thesis by simp
qed

text \<open>
  Claim C6 says that the build raises whenever the archive exceeds the cap. The code
  compares the cap with the size rounded to whole megabytes, the number it has just
  logged: an archive of 1,500,000 bytes passes a cap of 1 MB, and an archive of 500 MB
  and one byte passes the default cap of 500 MB, where the check
  "Upload exceeds maximum size" is meant to raise.
\<close>

theorem rounding_admits_oversized_archive:
  "1 * 1024 * 1024 < (1500000::nat)
   \<and> fst (snd (prepareUpload ((SystemUploadPacker_init [] True [])\<lparr> MAX_UPLOAD_SIZE_MB := 1 \<rparr>)
                 (Dir [''a.py''] []) (\<lambda>z. 1500000) ''src'' ''upload.zip'' [])) = Inr ()
   \<and> 500 * 1024 * 1024 < (524288001::nat)
   \<and> fst (snd (prepareUpload (SystemUploadPacker_init [] True []) (Dir [''a.py''] [])
                 (\<lambda>z. 524288001) ''src'' ''upload.zip'' [])) = Inr ()"
  by (simp add: prepareUpload_def Let_def uploadSizeMB_def round_div_def SystemUploadPacker_init_def)

subsection \<open>The archive\<close>

text \<open>The tests on strings, as statements about lists.\<close>

lemma startswith_iff: "startswith s p \<longleftrightarrow> (\<exists>r. s = p @ r)"
  by (induction s p rule: startswith.induct) auto

lemma str_in_iff: "str_in p s \<longleftrightarrow> (\<exists>u v. s = u @ p @ v)"
proof (induction s)
  case Nil
  then show ?case by auto
next
  case (Cons c s)
  show ?case
  proof
    assume "str_in p (c # s)"
    then consider "startswith (c # s) p" | "str_in p s" by auto
    then show "\<exists>u v. c # s = u @ p @ v"
    proof cases
      case 1
      then obtain r where "c # s = p @ r" by (auto simp: startswith_iff)
      then have "c # s = [] @ p @ r" by simp
      then show ?thesis by blast
    next
      case 2
      then obtain u v where "s = u @ p @ v" using Cons.IH by auto
      then have "c # s = (c # u) @ p @ v" by simp
      then show ?thesis by blast
    qed
  next
    assume "\<exists>u v. c # s = u @ p @ v"
    then obtain u v where uv: "c # s = u @ p @ v" by auto
    show "str_in p (c # s)"
    proof (cases u)
      case Nil
      then have "startswith (c # s) p" using uv by (auto simp: startswith_iff)
      then show ?thesis by simp
    next
      case (Cons a u')
      then have "s = u' @ p @ v" using uv by simp
      then have "str_in p s" using Cons.IH by blast
      then show ?thesis by simp
    qed
  qed
qed

lemma any_exclude_iff:
  "any_exclude ps np \<longleftrightarrow> (\<exists>e \<in> set ps. str_in (strip e) np)"
  by (induction ps) auto

lemma isExcluded_iff:
  "isExcluded self filePath \<longleftrightarrow>
     (\<exists>e \<in> set (excludePatterns self). \<exists>u v. replace_backslash filePath = u @ strip e @ v)"
  by (simp add: isExcluded_def any_exclude_iff str_in_iff)

lemma replace_backslash_append:
  "replace_backslash (a @ b) = replace_backslash a @ replace_backslash b"
  by (simp add: replace_backslash_def)

lemma str_in_append: "str_in p a \<Longrightarrow> str_in p (a @ b)"
  unfolding str_in_iff by (metis append.assoc)

text \<open>What the two loops of \<^verbatim>\<open>prepareUpload\<close> write.\<close>

lemma in_write_files:
  "(fp, up) \<in> set (write_files self outputFile r b fs) \<longleftrightarrow>
     (\<exists>f \<in> set fs. fp = os_path_join r f \<and> up = getUploadFilePath self (relpath_below b f)
        \<and> f \<noteq> outputFile \<and> \<not> isExcluded self (os_path_join r f))"
  by (induction fs) (auto simp: Let_def)

lemma ex_triple_insert:
  "(\<exists>r b fs. ((r, b, fs) = (r0, b0, fs0) \<or> (r, b, fs) \<in> S) \<and> A r b fs) \<longleftrightarrow>
     A r0 b0 fs0 \<or> (\<exists>r b fs. (r, b, fs) \<in> S \<and> A r b fs)"
  by blast

lemma in_write_walk:
  "(fp, up) \<in> set (write_walk self outputFile ws) \<longleftrightarrow>
     (\<exists>r b fs. (r, b, fs) \<in> set ws \<and> (fp, up) \<in> set (write_files self outputFile r b fs))"
proof (induction ws)
  case Nil
  then show ?case by simp
next
  case (Cons x ws)
  obtain r0 b0 fs0 where x: "x = (r0, b0, fs0)" by (cases x)
  have "(fp, up) \<in> set (write_walk self outputFile (x # ws)) \<longleftrightarrow>
          (fp, up) \<in> set (write_files self outputFile r0 b0 fs0)
            \<or> (fp, up) \<in> set (write_walk self outputFile ws)"
    by (simp add: x)
  also have "\<dots> \<longleftrightarrow> (\<exists>r b fs. ((r, b, fs) = (r0, b0, fs0) \<or> (r, b, fs) \<in> set ws)
                          \<and> (fp, up) \<in> set (write_files self outputFile r b fs))"
    unfolding Cons.IH ex_triple_insert ..
  finally show ?case by (simp add: x)
qed

lemma fst_prepareUpload:
  "fst (prepareUpload self tree getsize sourceDir outputFile w) =
     write_walk self outputFile (os_walk sourceDir tree)"
  by (simp add: prepareUpload_def Let_def)

text \<open>
  What the loops write: an entry for every file of the tree whose name is not the
  string \<open>outputFile\<close> and whose joined path \<^verbatim>\<open>os.path.join(root, file)\<close>, with every
  backslash replaced by a slash, contains no active pattern (trimmed of surrounding
  whitespace); each is stored under its path relative to the source root, after the
  prefix if there is one.
\<close>

lemma archive_entries:
  "set (fst (prepareUpload self tree getsize sourceDir outputFile w)) =
     {(os_path_join r f, getUploadFilePath self (relpath_below b f)) | r b fs f.
        (r, b, fs) \<in> set (os_walk sourceDir tree) \<and> f \<in> set fs \<and> f \<noteq> outputFile
          \<and> \<not> (\<exists>e \<in> set (excludePatterns self).
                 \<exists>u v. replace_backslash (os_path_join r f) = u @ strip e @ v)}"
proof (rule set_eqI)
  fix x :: zip_entry
  obtain fp up where x: "x = (fp, up)" by (cases x)
  show "x \<in> set (fst (prepareUpload self tree getsize sourceDir outputFile w)) \<longleftrightarrow>
        x \<in> {(os_path_join r f, getUploadFilePath self (relpath_below b f)) | r b fs f.
        (r, b, fs) \<in> set (os_walk sourceDir tree) \<and> f \<in> set fs \<and> f \<noteq> outputFile
          \<and> \<not> (\<exists>e \<in> set (excludePatterns self).
                 \<exists>u v. replace_backslash (os_path_join r f) = u @ strip e @ v)}"
    unfolding x fst_prepareUpload in_write_walk in_write_files isExcluded_iff
    by blast
qed

text \<open>
  The scenario of the specification: \<open>a.py\<close>, \<open>b.py\<close> and \<open>node_modules/c.py\<close> under the
  default patterns give an archive of \<open>a.py\<close> and \<open>b.py\<close>.
\<close>

lemma default_excludes_scenario:
  "map snd (write_walk (SystemUploadPacker_init [] True []) ''/tmp/upload.zip''
     (os_walk ''/tmp/src'' (Dir [''a.py'', ''b.py''] [(''node_modules'', Dir [''c.py''] [])])))
   = [''a.py'', ''b.py'']"
  by code_simp

text \<open>
  The scenario of the tests for nested directories: \<open>a/a.py\<close> and \<open>b/b.py\<close> are stored
  under these relative paths, and under \<open>frontend/\<close> with that prefix.
\<close>

lemma nested_directories_scenario:
  "write_walk (SystemUploadPacker_init [] True []) ''/tmp/upload.zip''
     (os_walk ''/tmp/src'' (Dir [] [(''a'', Dir [''a.py''] []), (''b'', Dir [''b.py''] [])]))
   = [(''/tmp/src/a/a.py'', ''a/a.py''), (''/tmp/src/b/b.py'', ''b/b.py'')]"
  "map snd (write_walk (SystemUploadPacker_init [] True ''frontend'') ''/tmp/upload.zip''
     (os_walk ''/tmp/src'' (Dir [] [(''a'', Dir [''a.py''] []), (''b'', Dir [''b.py''] [])])))
   = [''frontend/a/a.py'', ''frontend/b/b.py'']"
  by code_simp+

text \<open>
  Claim C5 says that the archive holds every file of the tree but those that a pattern
  excludes (and, by the design of the archive, the archive itself). The code tells the
  archive from the other files by comparing the bare file name with the string
  \<open>outputFile\<close>. With the archive written to \<open>upload.zip\<close> in the working directory and
  the sources in \<open>src\<close>, the file \<open>src/sub/upload.zip\<close> is another file, no pattern
  excludes it, and it is left out of the archive.
\<close>

theorem same_name_file_is_dropped:
  "os_walk ''src'' (Dir [''a.py''] [(''sub'', Dir [''upload.zip''] [])])
     = [(''src'', [], [''a.py'']), (''src/sub'', [''sub''], [''upload.zip''])]
   \<and> \<not> isExcluded (SystemUploadPacker_init [] True []) (os_path_join ''src/sub'' ''upload.zip'')
   \<and> fst (prepareUpload (SystemUploadPacker_init [] True [])
            (Dir [''a.py''] [(''sub'', Dir [''upload.zip''] [])]) (\<lambda>z. 1000)
            ''src'' ''upload.zip'' []) = [(''src/a.py'', ''a.py'')]"
proof -
  have "os_walk ''src'' (Dir [''a.py''] [(''sub'', Dir [''upload.zip''] [])])
     = [(''src'', [], [''a.py'']), (''src/sub'', [''sub''], [''upload.zip''])]"
    by code_simp
  moreover have
    "\<not> isExcluded (SystemUploadPacker_init [] True []) (os_path_join ''src/sub'' ''upload.zip'')"
    by code_simp
  moreover have "write_walk (SystemUploadPacker_init [] True []) ''upload.zip''
     (os_walk ''src'' (Dir [''a.py''] [(''sub'', Dir [''upload.zip''] [])]))
     = [(''src/a.py'', ''a.py'')]"
    by code_simp
  ultimately show ?thesis unfolding fst_prepareUpload by blast
qed

text \<open>
  The same comparison misses the archive itself when its path is not a bare name:
  with the sources in \<open>.\<close> and the archive at \<open>./upload.zip\<close>, the archive is written
  into itself.
\<close>

lemma archive_path_is_not_skipped:
  "write_walk (SystemUploadPacker_init [] True []) ''./upload.zip''
     (os_walk ''.'' (Dir [''a.py'', ''upload.zip''] []))
   = [(''./a.py'', ''a.py''), (''./upload.zip'', ''upload.zip'')]"
  by code_simp

text \<open>
  Every path that \<^verbatim>\<open>os.walk\<close> yields starts with the directory it was given, and the
  names it yields are names of directory entries.
\<close>

lemma os_path_join_entry:
  "entry_name n \<Longrightarrow> \<exists>s. os_path_join a n = a @ s"
  by (cases n) (auto simp: os_path_join_def entry_name_def)

lemma walk_invariant:
  "wf_tree t \<Longrightarrow> list_all entry_name b0 \<Longrightarrow> (r, b, fs) \<in> set (walk d b0 t) \<Longrightarrow>
     (\<exists>s. r = d @ s) \<and> list_all entry_name b \<and> list_all entry_name fs"
  "wf_dirs ds \<Longrightarrow> list_all entry_name b0 \<Longrightarrow> (r, b, fs) \<in> set (walk_dirs d b0 ds) \<Longrightarrow>
     (\<exists>s. r = d @ s) \<and> list_all entry_name b \<and> list_all entry_name fs"
proof (induction d b0 t and d b0 ds arbitrary: r b fs and r b fs rule: walk_walk_dirs.induct)
  case (1 dirpath below files dirs)
  then show ?case by auto
next
  case (2 dirpath below)
  then show ?case by simp
next
  case (3 dirpath below d t rest)
  from "3.prems"(3) consider
    "(r, b, fs) \<in> set (walk (os_path_join dirpath d) (below @ [d]) t)"
    | "(r, b, fs) \<in> set (walk_dirs dirpath below rest)"
    by auto
  then show ?case
  proof cases
    case 1
    have "list_all entry_name (below @ [d])" using "3.prems" by simp
    with "3.IH"(1) [OF _ _ 1] "3.prems"(1)
    have a: "(\<exists>s. r = os_path_join dirpath d @ s)" "list_all entry_name b" "list_all entry_name fs"
      by auto
    obtain s1 where "os_path_join dirpath d = dirpath @ s1"
      using os_path_join_entry "3.prems"(1) by auto
    then show ?thesis using a by auto
  next
    case 2
    with "3.IH"(2) "3.prems" show ?thesis by auto
  qed
qed

lemma excluded_below_source:
  assumes "wf_tree tree" and "(r, b, fs) \<in> set (os_walk sourceDir tree)" and "f \<in> set fs"
    and "e \<in> set (excludePatterns self)" and "str_in (strip e) (replace_backslash sourceDir)"
  shows "isExcluded self (os_path_join r f)"
proof -
  from walk_invariant(1) [OF assms(1) _ assms(2) [unfolded os_walk_def]]
  obtain s where r: "r = sourceDir @ s" and fs: "list_all entry_name fs" by auto
  from fs assms(3) have "entry_name f" by (simp add: list_all_iff)
  then obtain s2 where "os_path_join r f = r @ s2" using os_path_join_entry by blast
  then have "os_path_join r f = sourceDir @ (s @ s2)" using r by simp
  then have "str_in (strip e) (replace_backslash (os_path_join r f))"
    using assms(5) by (simp add: replace_backslash_append str_in_append)
  then show ?thesis
    using assms(4) by (auto simp: isExcluded_def any_exclude_iff)
qed

text \<open>
  Claim C10. The exclusion test reads the joined path, which starts with the source
  directory as the caller gave it: when that directory's own path, with backslashes
  replaced by slashes, contains an active pattern (trimmed), every file of the tree
  is excluded and the archive has no entries. (The tree is one of a file system: its
  names are not empty and hold no slash.)
\<close>

theorem excluded_source_dir_empties_archive:
  assumes "wf_tree tree" and "e \<in> set (excludePatterns self)"
    and "str_in (strip e) (replace_backslash sourceDir)"
  shows "fst (prepareUpload self tree getsize sourceDir outputFile w) = []"
proof (cases "write_walk self outputFile (os_walk sourceDir tree)")
  case Nil
  then show ?thesis by (simp add: fst_prepareUpload)
next
  case (Cons x xs)
  obtain fp up where "x = (fp, up)" by (cases x)
  then have "(fp, up) \<in> set (write_walk self outputFile (os_walk sourceDir tree))"
    using Cons by simp
  then obtain r b fs f where "(r, b, fs) \<in> set (os_walk sourceDir tree)" "f \<in> set fs"
      "\<not> isExcluded self (os_path_join r f)"
    unfolding in_write_walk in_write_files by blast
  then have False using excluded_below_source [OF assms(1) _ _ assms(2,3)] by blast
  then show ?thesis ..
qed

text \<open>A source directory below a directory named \<open>build\<close>, under the default patterns.\<close>

lemma build_in_source_dir:
  "str_in (strip ''build/'') (replace_backslash ''/home/build/project'')"
  by code_simp

theorem excluded_source_dir_empties_archive_witness:
  "fst (prepareUpload (SystemUploadPacker_init [] True [])
          (Dir [''a.py''] [(''lib'', Dir [''b.py''] [])]) (\<lambda>z. 0)
          ''/home/build/project'' ''upload.zip'' []) = []"
proof -
  have a: "wf_tree (Dir [''a.py''] [(''lib'', Dir [''b.py''] [])])"
    by (simp add: entry_name_def)
  have b: "''build/'' \<in> set (excludePatterns (SystemUploadPacker_init [] True []))"
    by (simp add: SystemUploadPacker_init_def DEFAULT_EXCLUDES_def)
  from excluded_source_dir_empties_archive [OF a b build_in_source_dir]
  show ?thesis .
qed

subsection \<open>The path prefix\<close>

lemma startswith_slash: "startswith s ''/'' \<longleftrightarrow> s \<noteq> [] \<and> hd s = CHR ''/''"
  by (cases s) auto

lemma endswith_slash: "endswith s ''/'' \<longleftrightarrow> s \<noteq> [] \<and> last s = CHR ''/''"
  by (cases s rule: rev_cases) (auto simp: endswith_def)

lemma rstrip_prefix: "\<exists>t. xs = rev (dropWhile P (rev xs)) @ t"
proof (induction xs rule: rev_induct)
  case Nil
  then show ?case by simp
next
  case (snoc x xs)
  then obtain t where t: "xs = rev (dropWhile P (rev xs)) @ t" by blast
  show ?case
  proof (cases "P x")
    case True
    have eq: "dropWhile P (rev (xs @ [x])) = dropWhile P (rev xs)" using True by simp
    have "xs @ [x] = rev (dropWhile P (rev xs)) @ (t @ [x])" by (metis t append_assoc)
    then show ?thesis unfolding eq by blast
  next
    case False
    then show ?thesis by simp
  qed
qed

lemma strip_where_ends:
  assumes "strip_where P s \<noteq> []"
  shows "\<not> P (hd (strip_where P s))" and "\<not> P (last (strip_where P s))"
proof -
  let ?l = "dropWhile P s"
  let ?r = "rev (dropWhile P (rev ?l))"
  have r: "strip_where P s = ?r" by (simp add: strip_where_def)
  obtain t where t: "?l = ?r @ t" using rstrip_prefix by blast
  have ne: "?r \<noteq> []" using assms r by simp
  then have "?l \<noteq> []" using t by (metis Nil_is_append_conv)
  then have "\<not> P (hd ?l)" by (rule hd_dropWhile)
  moreover have "hd ?l = hd ?r" using t ne by (metis hd_append2)
  ultimately show "\<not> P (hd (strip_where P s))" using r by simp
  have "dropWhile P (rev ?l) \<noteq> []" using ne by simp
  then have "\<not> P (hd (dropWhile P (rev ?l)))" by (rule hd_dropWhile)
  moreover have "last ?r = hd (dropWhile P (rev ?l))"
    using ne by (simp add: last_rev)
  ultimately show "\<not> P (last (strip_where P s))" using r by simp
qed

lemma init_prefix_stripped:
  "\<not> startswith (pathPrefix (SystemUploadPacker_init excludes hist prefix)) ''/''"
  "\<not> endswith (pathPrefix (SystemUploadPacker_init excludes hist prefix)) ''/''"
  using strip_where_ends [of "\<lambda>c. c \<in> set ''/''" prefix]
  by (auto simp: SystemUploadPacker_init_def strip_chars_def startswith_slash endswith_slash)

lemma str_in_double_slash: "str_in ''//'' s \<longleftrightarrow> double_slash s"
  by (induction s rule: double_slash.induct) auto

lemma double_slash_Cons:
  "double_slash (a # s) \<longleftrightarrow> (s \<noteq> [] \<and> a = CHR ''/'' \<and> hd s = CHR ''/'') \<or> double_slash s"
  by (cases s) auto

lemma double_slash_append:
  "double_slash (x @ y) \<longleftrightarrow>
     double_slash x \<or> double_slash y \<or> (x \<noteq> [] \<and> y \<noteq> [] \<and> last x = CHR ''/'' \<and> hd y = CHR ''/'')"
proof (induction x)
  case Nil
  then show ?case by simp
next
  case (Cons a x)
  show ?case
  proof (cases x)
    case Nil
    then show ?thesis by (auto simp: double_slash_Cons)
  next
    case (Cons b x')
    then show ?thesis using Cons.IH by auto
  qed
qed

lemma no_slash_no_double: "CHR ''/'' \<notin> set s \<Longrightarrow> \<not> double_slash s"
  by (induction s rule: double_slash.induct) auto

lemma join_slash_names:
  assumes "ns \<noteq> []" and "list_all entry_name ns"
  shows "join_slash ns \<noteq> [] \<and> hd (join_slash ns) \<noteq> CHR ''/'' \<and> last (join_slash ns) \<noteq> CHR ''/''
         \<and> \<not> double_slash (join_slash ns)"
  using assms
proof (induction ns rule: join_slash.induct)
  case 1
  then show ?case by simp
next
  case (2 x)
  then have x: "x \<noteq> []" "CHR ''/'' \<notin> set x" by (auto simp: entry_name_def)
  then have "hd x \<noteq> CHR ''/''" "last x \<noteq> CHR ''/''" by (metis hd_in_set, metis last_in_set)
  then show ?case using x by (simp add: no_slash_no_double)
next
  case (3 x y ys)
  then have ih: "join_slash (y # ys) \<noteq> []" "hd (join_slash (y # ys)) \<noteq> CHR ''/''"
      "last (join_slash (y # ys)) \<noteq> CHR ''/''" "\<not> double_slash (join_slash (y # ys))"
    by auto
  have x: "x \<noteq> []" "CHR ''/'' \<notin> set x" using "3.prems" by (auto simp: entry_name_def)
  then have hx: "hd x \<noteq> CHR ''/''" "last x \<noteq> CHR ''/''" by (metis hd_in_set, metis last_in_set)
  have ds: "\<not> double_slash (CHR ''/'' # join_slash (y # ys))"
    using ih by (cases "join_slash (y # ys)") auto
  show ?case
    using x hx ih ds
    by (auto simp: double_slash_append no_slash_no_double)
qed

lemma relpath_below_names:
  assumes "list_all entry_name b" and "entry_name f"
  shows "relpath_below b f \<noteq> [] \<and> hd (relpath_below b f) \<noteq> CHR ''/''
         \<and> last (relpath_below b f) \<noteq> CHR ''/'' \<and> \<not> double_slash (relpath_below b f)"
  unfolding relpath_below_def using assms by (intro join_slash_names) auto

lemma getUploadFilePath_shape:
  assumes "\<not> startswith (pathPrefix self) ''/''" and "\<not> endswith (pathPrefix self) ''/''"
    and rel: "rel \<noteq> []" "hd rel \<noteq> CHR ''/''" "last rel \<noteq> CHR ''/''" "\<not> double_slash rel"
  shows "\<not> startswith (getUploadFilePath self rel) ''/''"
    and "\<not> endswith (getUploadFilePath self rel) ''/''"
    and "str_in ''//'' (getUploadFilePath self rel) \<longrightarrow> str_in ''//'' (pathPrefix self)"
proof -
  have ds: "\<not> double_slash (CHR ''/'' # rel)" using rel by (cases rel) auto
  show "\<not> startswith (getUploadFilePath self rel) ''/''"
    using assms by (auto simp: getUploadFilePath_def startswith_slash)
  show "\<not> endswith (getUploadFilePath self rel) ''/''"
    using assms by (auto simp: getUploadFilePath_def endswith_slash)
  show "str_in ''//'' (getUploadFilePath self rel) \<longrightarrow> str_in ''//'' (pathPrefix self)"
    using assms ds
    by (auto simp: getUploadFilePath_def str_in_double_slash double_slash_append startswith_slash
          endswith_slash)
qed

text \<open>
  Claim C9. For every prefix the caller gives, the normalized prefix neither begins
  nor ends with a slash. Every entry of the archive of a tree (whose names are not
  empty and hold no slash, as in a file system) is stored under
  \<open>prefix/relativePath\<close> when the normalized prefix is not empty and under the bare
  relative path otherwise; its path neither begins nor ends with a slash, and it holds
  two slashes in a row only if the prefix itself does: prefixing introduces none.
\<close>

theorem path_prefix_normalized:
  assumes "self = SystemUploadPacker_init excludes hist prefix"
  shows "\<not> startswith (pathPrefix self) ''/'' \<and> \<not> endswith (pathPrefix self) ''/''
     \<and> (wf_tree tree \<longrightarrow>
         (\<forall>(fp, up) \<in> set (fst (prepareUpload self tree getsize sourceDir outputFile w)).
            (\<exists>r b fs f. (r, b, fs) \<in> set (os_walk sourceDir tree) \<and> f \<in> set fs
                \<and> fp = os_path_join r f
                \<and> up = (if pathPrefix self = [] then relpath_below b f
                         else pathPrefix self @ ''/'' @ relpath_below b f))
            \<and> \<not> startswith up ''/'' \<and> \<not> endswith up ''/''
            \<and> (str_in ''//'' up \<longrightarrow> str_in ''//'' (pathPrefix self))))"
proof (intro conjI impI)
  show p1: "\<not> startswith (pathPrefix self) ''/''"
    and p2: "\<not> endswith (pathPrefix self) ''/''"
    using init_prefix_stripped assms by simp_all
  assume wf: "wf_tree tree"
  show "\<forall>(fp, up) \<in> set (fst (prepareUpload self tree getsize sourceDir outputFile w)).
            (\<exists>r b fs f. (r, b, fs) \<in> set (os_walk sourceDir tree) \<and> f \<in> set fs
                \<and> fp = os_path_join r f
                \<and> up = (if pathPrefix self = [] then relpath_below b f
                         else pathPrefix self @ ''/'' @ relpath_below b f))
            \<and> \<not> startswith up ''/'' \<and> \<not> endswith up ''/''
            \<and> (str_in ''//'' up \<longrightarrow> str_in ''//'' (pathPrefix self))"
  proof (intro ballI, clarify)
    fix fp up
    assume "(fp, up) \<in> set (fst (prepareUpload self tree getsize sourceDir outputFile w))"
    then obtain r b fs f where e: "(r, b, fs) \<in> set (os_walk sourceDir tree)" "f \<in> set fs"
        "fp = os_path_join r f" "up = getUploadFilePath self (relpath_below b f)"
      unfolding fst_prepareUpload in_write_walk in_write_files by blast
    from walk_invariant(1) [OF wf _ e(1) [unfolded os_walk_def]]
    have "list_all entry_name b" "list_all entry_name fs" by auto
    then have "list_all entry_name b" "entry_name f" using e(2) by (auto simp: list_all_iff)
    from relpath_below_names [OF this]
    have rel: "relpath_below b f \<noteq> []" "hd (relpath_below b f) \<noteq> CHR ''/''"
        "last (relpath_below b f) \<noteq> CHR ''/''" "\<not> double_slash (relpath_below b f)"
      by auto
    note shape = getUploadFilePath_shape [OF p1 p2 rel, folded e(4)]
    have "up = (if pathPrefix self = [] then relpath_below b f
                else pathPrefix self @ ''/'' @ relpath_below b f)"
      using e(4) by (simp add: getUploadFilePath_def)
    with e(1-3) have ex: "\<exists>r b fs f. (r, b, fs) \<in> set (os_walk sourceDir tree) \<and> f \<in> set fs
                \<and> fp = os_path_join r f
                \<and> up = (if pathPrefix self = [] then relpath_below b f
                         else pathPrefix self @ ''/'' @ relpath_below b f)"
      by blast
    show "(\<exists>r b fs f. (r, b, fs) \<in> set (os_walk sourceDir tree) \<and> f \<in> set fs
                \<and> fp = os_path_join r f
                \<and> up = (if pathPrefix self = [] then relpath_below b f
                         else pathPrefix self @ ''/'' @ relpath_below b f))
            \<and> \<not> startswith up ''/'' \<and> \<not> endswith up ''/''
            \<and> (str_in ''//'' up \<longrightarrow> str_in ''//'' (pathPrefix self))"
      using ex shape by (intro conjI)
  qed
qed

text \<open>The prefix \<open>/backend/\<close> normalizes to \<open>backend\<close>; a file \<open>a.py\<close> is stored as \<open>backend/a.py\<close>.\<close>

lemma backend_prefix:
  "pathPrefix (SystemUploadPacker_init [] True ''/backend/'') = ''backend''"
  by code_simp

lemma backend_entries:
  "write_walk (SystemUploadPacker_init [] True ''/backend/'') ''upload.zip''
     (os_walk ''src'' (Dir [''a.py''] [])) = [(''src/a.py'', ''backend/a.py'')]"
  by code_simp

lemma backend_no_double_slash: "\<not> str_in ''//'' ''backend''"
  by code_simp

theorem path_prefix_normalized_witness:
  "pathPrefix (SystemUploadPacker_init [] True ''/backend/'') = ''backend''
   \<and> fst (prepareUpload (SystemUploadPacker_init [] True ''/backend/'') (Dir [''a.py''] [])
            (\<lambda>z. 0) ''src'' ''upload.zip'' []) = [(''src/a.py'', ''backend/a.py'')]
   \<and> \<not> startswith ''backend/a.py'' ''/'' \<and> \<not> endswith ''backend/a.py'' ''/''
   \<and> \<not> str_in ''//'' ''backend/a.py''"
proof -
  have wf: "wf_tree (Dir [''a.py''] [])" by (simp add: entry_name_def)
  have en: "fst (prepareUpload (SystemUploadPacker_init [] True ''/backend/'') (Dir [''a.py''] [])
            (\<lambda>z. 0) ''src'' ''upload.zip'' []) = [(''src/a.py'', ''backend/a.py'')]"
    by (simp only: fst_prepareUpload backend_entries)
  from path_prefix_normalized [OF refl, where excludes = "[]" and hist = True
         and prefix = "''/backend/''" and tree = "Dir [''a.py''] []" and getsize = "\<lambda>z. 0"
         and sourceDir = "''src''" and outputFile = "''upload.zip''" and w = "[]"]
  have "\<not> startswith ''backend/a.py'' ''/'' \<and> \<not> endswith ''backend/a.py'' ''/''
        \<and> (str_in ''//'' ''backend/a.py'' \<longrightarrow> str_in ''//'' ''backend'')"
    unfolding en backend_prefix using wf by simp
  then show ?thesis using en backend_prefix backend_no_double_slash by blast
qed

end
